theory Spec2Isabelle
  imports Complex_Main
begin

chapter \<open>Adaptive rendering core of LACS-WORLD-3: device tiering, decimation, renderer lifecycle\<close>

section \<open>Strings and JavaScript numbers\<close>

text \<open>
  The sources test strings with \<^verbatim>\<open>tier.startsWith('mobile')\<close>,
  \<^verbatim>\<open>tier.includes('webgpu')\<close> and the case-insensitive regular expression
  \<^verbatim>\<open>/Mobi|Android|iPhone|iPad|iPod/i.test(userAgent)\<close>: an alternation of
  literal words, unanchored, so the test is a search for one of the words as a substring,
  letters compared without regard to case.
\<close>

fun startsWith :: "string \<Rightarrow> string \<Rightarrow> bool" where
  "startsWith s [] = True"
| "startsWith [] (p # ps) = False"
| "startsWith (c # cs) (p # ps) = (c = p \<and> startsWith cs ps)"

fun str_includes :: "string \<Rightarrow> string \<Rightarrow> bool" where
  "str_includes [] p = (p = [])"
| "str_includes (c # cs) p = (startsWith (c # cs) p \<or> str_includes cs p)"

definition canonicalize :: "char \<Rightarrow> char" where
  "canonicalize c =
     (case map_of (zip ''abcdefghijklmnopqrstuvwxyz'' ''ABCDEFGHIJKLMNOPQRSTUVWXYZ'') c of
        Some u \<Rightarrow> u
      | None \<Rightarrow> c)"

definition regex_test_i :: "string list \<Rightarrow> string \<Rightarrow> bool" where
  "regex_test_i alternatives s =
     list_ex (\<lambda>w. str_includes (map canonicalize s) (map canonicalize w)) alternatives"

text \<open>
  A JavaScript number as the loop of the decimator and the bounding boxes of three.js use
  it: a finite value, one of the two infinities, or NaN.
\<close>

datatype 'a jsnum = Fin 'a | PosInf | NegInf | NaN

fun js_lt :: "int jsnum \<Rightarrow> nat \<Rightarrow> bool" where
  "js_lt (Fin i) n = (i < int n)"
| "js_lt NegInf n = True"
| "js_lt PosInf n = False"
| "js_lt NaN n = False"

fun js_add :: "int jsnum \<Rightarrow> int jsnum \<Rightarrow> int jsnum" where
  "js_add (Fin a) (Fin b) = Fin (a + b)"
| "js_add NaN b = NaN"
| "js_add a NaN = NaN"
| "js_add PosInf NegInf = NaN"
| "js_add NegInf PosInf = NaN"
| "js_add PosInf b = PosInf"
| "js_add a PosInf = PosInf"
| "js_add NegInf b = NegInf"
| "js_add a NegInf = NegInf"

fun js_times3 :: "int jsnum \<Rightarrow> int jsnum" where
  "js_times3 (Fin a) = Fin (a * 3)"
| "js_times3 PosInf = PosInf"
| "js_times3 NegInf = NegInf"
| "js_times3 NaN = NaN"

section \<open>Device classification: PerfFlags\<close>

text \<open>
  The signals \<^verbatim>\<open>PerfFlags\<close> reads once, when the module is loaded.
  \<^verbatim>\<open>navigator.deviceMemory\<close> is absent on many browsers (\<open>None\<close>).
\<close>

record signals =
  userAgent :: string
  ontouchstart :: bool
  maxTouchPoints :: int
  innerWidth :: int
  innerHeight :: int
  deviceMemory :: "real option"

datatype Tier = mobileLow | desktopHigh

record perfFlags =
  tier :: Tier
  isMobile :: bool
  isIOS :: bool
  dynamicShadows :: bool
  ssr :: bool
  ssgi :: bool
  ao :: bool
  bloom :: bool
  anisotropy :: nat
  maxTextureSize :: nat
  useLogDepth :: bool
  originRebase :: bool

definition isMobileUA :: "string \<Rightarrow> bool" where
  "isMobileUA ua = regex_test_i [''Mobi'', ''Android'', ''iPhone'', ''iPad'', ''iPod''] ua"

definition isIOS_UA :: "string \<Rightarrow> bool" where
  "isIOS_UA ua = regex_test_i [''iPhone'', ''iPad'', ''iPod''] ua"

definition isTouchDevice :: "signals \<Rightarrow> bool" where
  "isTouchDevice s = (ontouchstart s \<or> maxTouchPoints s > 0)"

definition isNarrowViewport :: "signals \<Rightarrow> bool" where
  "isNarrowViewport s = (innerWidth s < 768)"

text \<open>
  \<^verbatim>\<open>deviceMemory ? deviceMemory <= 4 : false\<close>: the condition is JavaScript
  truthiness, so an absent value and the value 0 both count as not reported.
\<close>

definition hasLowMemory :: "signals \<Rightarrow> bool" where
  "hasLowMemory s =
     (case deviceMemory s of
        None \<Rightarrow> False
      | Some m \<Rightarrow> (if m \<noteq> 0 then m \<le> 4 else False))"

definition isSimulatorSize :: "signals \<Rightarrow> bool" where
  "isSimulatorSize s = (innerWidth s < 600 \<or> innerHeight s < 600)"

definition PerfFlags :: "signals \<Rightarrow> perfFlags" where
  "PerfFlags s =
     (let isMobile' = (isMobileUA (userAgent s) \<or> (isTouchDevice s \<and> isNarrowViewport s)
                       \<or> hasLowMemory s \<or> isSimulatorSize s);
          tier' = (if isMobile' then mobileLow else desktopHigh)
      in \<lparr> tier = tier',
           isMobile = isMobile',
           isIOS = isIOS_UA (userAgent s),
           dynamicShadows = (tier' = desktopHigh),
           ssr = False,
           ssgi = (tier' = desktopHigh),
           ao = (tier' = desktopHigh),
           bloom = (tier' = desktopHigh),
           anisotropy = (if tier' = desktopHigh then 8 else 2),
           maxTextureSize = (if tier' = desktopHigh then 4096 else 1024),
           useLogDepth = False,
           originRebase = False \<rparr>)"

definition phoneSignals :: signals where
  "phoneSignals =
     \<lparr> userAgent = ''Mozilla/5.0 (iPhone; CPU iPhone OS 16_0 like Mac OS X)'',
       ontouchstart = True, maxTouchPoints = 5, innerWidth = 375, innerHeight = 667,
       deviceMemory = Some 3 \<rparr>"

definition desktopSignals :: signals where
  "desktopSignals =
     \<lparr> userAgent = ''Mozilla/5.0 (X11; Linux x86_64)'',
       ontouchstart = False, maxTouchPoints = 0, innerWidth = 1920, innerHeight = 1080,
       deviceMemory = Some 16 \<rparr>"

section \<open>The tier table of the knowledge base\<close>

datatype TierName = LOW | BALANCED | HIGH

datatype postProcessingSetting = PostOff | PostMinimal | PostOn

record tierConfig =
  config_pixelRatio :: real
  config_shadowMapSize :: nat
  config_maxTextureSize :: nat
  config_anisotropy :: nat
  config_postProcessing :: postProcessingSetting
  config_dynamicShadows :: bool
  config_ao :: bool
  config_bloom :: bool
  config_ssgi :: bool
  config_ssr :: bool
  config_maxCanvasPixels :: nat

fun performanceTiers :: "TierName \<Rightarrow> tierConfig" where
  "performanceTiers LOW =
     \<lparr> config_pixelRatio = 1, config_shadowMapSize = 1024, config_maxTextureSize = 1024,
       config_anisotropy = 1, config_postProcessing = PostOff, config_dynamicShadows = False,
       config_ao = False, config_bloom = False, config_ssgi = False, config_ssr = False,
       config_maxCanvasPixels = 900000 \<rparr>"
| "performanceTiers BALANCED =
     \<lparr> config_pixelRatio = 13 / 10, config_shadowMapSize = 1024, config_maxTextureSize = 2048,
       config_anisotropy = 2, config_postProcessing = PostMinimal, config_dynamicShadows = False,
       config_ao = False, config_bloom = True, config_ssgi = False, config_ssr = False,
       config_maxCanvasPixels = 1200000 \<rparr>"
| "performanceTiers HIGH =
     \<lparr> config_pixelRatio = 2, config_shadowMapSize = 2048, config_maxTextureSize = 4096,
       config_anisotropy = 4, config_postProcessing = PostOn, config_dynamicShadows = True,
       config_ao = True, config_bloom = True, config_ssgi = False, config_ssr = False,
       config_maxCanvasPixels = 3000000 \<rparr>"

section \<open>Geometry decimation: simplifyGeometry\<close>

text \<open>
  A \<^verbatim>\<open>THREE.BufferGeometry\<close> as the decimator reads and writes it:
  \<open>position\<close> is \<^verbatim>\<open>attributes.position.count\<close> (\<open>None\<close> when the
  geometry has no position attribute, where reading \<^verbatim>\<open>.count\<close> throws a
  TypeError), \<open>index\<close> is the array of the index buffer (\<open>None\<close> for a non-indexed
  geometry), \<open>attributes\<close> stands for the vertex attribute buffers (positions, normals,
  uvs), and the two bounding volumes are \<open>None\<close> until computed.
\<close>

datatype error = TypeError

record ('a, 's, 'b) bufferGeometry =
  position :: "nat option"
  index :: "nat list option"
  attributes :: 'a
  boundingSphere :: "'s option"
  boundingBox :: "'b option"

text \<open>
  The three.js routines the decimator calls on the clone are not part of the repository;
  they are parameters of the model: the attribute buffers after
  \<^verbatim>\<open>computeVertexNormals\<close> (from the index and the attributes), and the sphere
  and box that \<^verbatim>\<open>computeBoundingSphere\<close> and \<^verbatim>\<open>computeBoundingBox\<close>
  derive from the attributes.
\<close>

record ('a, 's, 'b) three =
  normalsOf :: "nat list option \<Rightarrow> 'a \<Rightarrow> 'a"
  boundingSphereOf :: "'a \<Rightarrow> 's"
  boundingBoxOf :: "'a \<Rightarrow> 'b"

text \<open>
  Geometries are objects: the function receives a reference and may return the same
  reference or a new one. The store holds the objects, a reference is a position in it, and
  \<^verbatim>\<open>geometry.clone()\<close> allocates a new object that copies the index and the
  attributes of the original (three.js clones each buffer), so that writes through the
  clone's reference do not reach the original.
\<close>

type_synonym ('a, 's, 'b) store = "('a, 's, 'b) bufferGeometry list"

definition clone :: "('a, 's, 'b) store \<Rightarrow> nat \<Rightarrow> ('a, 's, 'b) store \<times> nat" where
  "clone h g = (h @ [h ! g], length h)"

definition setIndex :: "('a, 's, 'b) store \<Rightarrow> nat \<Rightarrow> nat list \<Rightarrow> ('a, 's, 'b) store" where
  "setIndex h g newIndices = h[g := (h ! g)\<lparr>index := Some newIndices\<rparr>]"

definition computeVertexNormals ::
  "('a, 's, 'b) three \<Rightarrow> ('a, 's, 'b) store \<Rightarrow> nat \<Rightarrow> ('a, 's, 'b) store" where
  "computeVertexNormals T h g =
     h[g := (h ! g)\<lparr>attributes := normalsOf T (index (h ! g)) (attributes (h ! g))\<rparr>]"

definition computeBoundingSphere ::
  "('a, 's, 'b) three \<Rightarrow> ('a, 's, 'b) store \<Rightarrow> nat \<Rightarrow> ('a, 's, 'b) store" where
  "computeBoundingSphere T h g =
     h[g := (h ! g)\<lparr>boundingSphere := Some (boundingSphereOf T (attributes (h ! g)))\<rparr>]"

definition computeBoundingBox ::
  "('a, 's, 'b) three \<Rightarrow> ('a, 's, 'b) store \<Rightarrow> nat \<Rightarrow> ('a, 's, 'b) store" where
  "computeBoundingBox T h g =
     h[g := (h ! g)\<lparr>boundingBox := Some (boundingBoxOf T (attributes (h ! g)))\<rparr>]"

text \<open>
  \<^verbatim>\<open>simplified.index.array[i]\<close>. A read outside the typed array gives
  \<^verbatim>\<open>undefined\<close>, which \<^verbatim>\<open>setIndex\<close> would store as 0; the loop
  reads at \<open>i\<close>, \<open>i + 1\<close>, \<open>i + 2\<close> only under the guard \<open>i + 2 < indexCount\<close>,
  so such a read needs a negative \<open>i\<close>.
\<close>

fun array_at :: "nat list \<Rightarrow> int jsnum \<Rightarrow> nat" where
  "array_at arr (Fin i) = (if 0 \<le> i \<and> i < int (length arr) then arr ! nat i else 0)"
| "array_at arr PosInf = 0"
| "array_at arr NegInf = 0"
| "array_at arr NaN = 0"

text \<open>
  \<^verbatim>\<open>Math.ceil(indexCount / targetIndexCount)\<close>: the division of two integers, by
  zero \<open>Infinity\<close> (or \<open>NaN\<close> for \<open>0 / 0\<close>). The target ratio is a real number in
  the model, so \<^verbatim>\<open>Math.floor(indexCount * targetRatio)\<close> is the exact floor.
\<close>

definition step_of :: "nat \<Rightarrow> int \<Rightarrow> int jsnum" where
  "step_of indexCount targetIndexCount =
     (if targetIndexCount = 0 then (if indexCount = 0 then NaN else PosInf)
      else Fin \<lceil>real indexCount / real_of_int targetIndexCount\<rceil>)"

text \<open>
  The loop \<^verbatim>\<open>for (let i = 0; i < indexCount; i += step * 3)\<close> with its body, as a
  function of the array, the stride \<open>step * 3\<close>, the counter and the indices pushed so
  far. With a stride that is not positive the counter never reaches \<open>indexCount\<close> and the
  loop does not return: the value is \<open>None\<close>.
\<close>

partial_function (option) collect ::
  "nat list \<Rightarrow> int jsnum \<Rightarrow> int jsnum \<Rightarrow> nat list \<Rightarrow> nat list option" where
  "collect arr stride i newIndices =
     (if js_lt i (length arr) then
        collect arr stride (js_add i stride)
          (if js_lt (js_add i (Fin 2)) (length arr)
           then newIndices @ [array_at arr i, array_at arr (js_add i (Fin 1)),
                              array_at arr (js_add i (Fin 2))]
           else newIndices)
      else Some newIndices)"

text \<open>
  The result is \<open>None\<close> when the loop does not return, \<open>Some (Inl TypeError)\<close> when
  the position attribute is missing, and otherwise the store after the call with the
  reference returned.
\<close>

definition simplifyGeometryForMobile ::
  "('a, 's, 'b) three \<Rightarrow> ('a, 's, 'b) store \<Rightarrow> nat \<Rightarrow> real
     \<Rightarrow> (error + ('a, 's, 'b) store \<times> nat) option" where
  "simplifyGeometryForMobile T h geometry targetRatio =
     (case position (h ! geometry) of
        None \<Rightarrow> Some (Inl TypeError)
      | Some vertexCount \<Rightarrow>
          if vertexCount < 10000 then Some (Inr (h, geometry))
          else
            let (h1, simplified) = clone h geometry in
            Option.bind
              (case index (h1 ! simplified) of
                 None \<Rightarrow> Some h1
               | Some arr \<Rightarrow>
                   let indexCount = length arr;
                       targetIndexCount = \<lfloor>real indexCount * targetRatio\<rfloor>;
                       step = step_of indexCount targetIndexCount
                   in map_option (setIndex h1 simplified)
                        (collect arr (js_times3 step) (Fin 0) []))
              (\<lambda>h2. Some (Inr (computeBoundingBox T
                                 (computeBoundingSphere T
                                    (computeVertexNormals T h2 simplified) simplified)
                                 simplified,
                               simplified))))"

text \<open>
  The caller: the body of the \<^verbatim>\<open>traverse\<close> callback of
  \<^verbatim>\<open>SingleEnvironmentMesh\<close> that replaces \<^verbatim>\<open>mesh.geometry\<close> by
  \<^verbatim>\<open>simplifyGeometryForMobile(mesh.geometry, 0.3)\<close> when
  \<^verbatim>\<open>shouldSimplifyMesh(mesh, isMobile)\<close> holds.
\<close>

record mesh =
  geometry :: "nat option"

definition shouldSimplifyMesh :: "('a, 's, 'b) store \<Rightarrow> mesh \<Rightarrow> bool \<Rightarrow> bool" where
  "shouldSimplifyMesh h m isMobile' =
     (if \<not> isMobile' then False
      else case geometry m of
             None \<Rightarrow> False
           | Some g \<Rightarrow>
               (case position (h ! g) of
                  None \<Rightarrow> False
                | Some vertexCount \<Rightarrow> vertexCount > 50000))"

definition simplifyOnTraverse ::
  "('a, 's, 'b) three \<Rightarrow> ('a, 's, 'b) store \<Rightarrow> mesh \<Rightarrow> bool
     \<Rightarrow> (error + ('a, 's, 'b) store \<times> mesh) option" where
  "simplifyOnTraverse T h m isMobile' =
     (case geometry m of
        None \<Rightarrow> Some (Inr (h, m))
      | Some g \<Rightarrow>
          (case position (h ! g) of
             None \<Rightarrow> Some (Inr (h, m))
           | Some vertCount \<Rightarrow>
               if shouldSimplifyMesh h m isMobile'
               then map_option (map_sum id (\<lambda>(h', g'). (h', m\<lparr>geometry := Some g'\<rparr>)))
                      (simplifyGeometryForMobile T h g (3 / 10))
               else Some (Inr (h, m))))"

text \<open>
  The invariant of a mesh asset: the index buffer is a triangle list, its length a
  multiple of 3.
\<close>

definition triangleList :: "('a, 's, 'b) bufferGeometry \<Rightarrow> bool" where
  "triangleList g = (case index g of None \<Rightarrow> True | Some arr \<Rightarrow> 3 dvd length arr)"

text \<open>Concrete inputs: a library instance without attribute data, and three meshes.\<close>

definition unitThree :: "(unit, unit, unit) three" where
  "unitThree = \<lparr> normalsOf = (\<lambda>i a. a), boundingSphereOf = (\<lambda>a. ()), boundingBoxOf = (\<lambda>a. ()) \<rparr>"

definition quad :: "nat \<Rightarrow> (unit, unit, unit) bufferGeometry" where
  "quad vertexCount =
     \<lparr> position = Some vertexCount, index = Some [0, 1, 2, 2, 1, 3], attributes = (),
       boundingSphere = None, boundingBox = None \<rparr>"

text \<open>
  The number of triangles a geometry draws: a third of the index count, or of the vertex
  count when there is no index.
\<close>

definition triangleCount :: "('a, 's, 'b) bufferGeometry \<Rightarrow> nat" where
  "triangleCount G =
     (case index G of
        Some arr \<Rightarrow> length arr div 3
      | None \<Rightarrow> (case position G of Some n \<Rightarrow> n div 3 | None \<Rightarrow> 0))"

definition resultTriangleCount ::
  "(error + ('a, 's, 'b) store \<times> mesh) option \<Rightarrow> nat option" where
  "resultTriangleCount res =
     (case res of
        Some (Inr (h', m')) \<Rightarrow> map_option (\<lambda>g'. triangleCount (h' ! g')) (geometry m')
      | _ \<Rightarrow> None)"

definition indexedMesh60k :: "(unit, unit, unit) bufferGeometry" where
  "indexedMesh60k =
     \<lparr> position = Some 60000, index = Some (map (\<lambda>i. i mod 60000) [0..<120000]),
       attributes = (), boundingSphere = None, boundingBox = None \<rparr>"

definition triangleSoup60k :: "(unit, unit, unit) bufferGeometry" where
  "triangleSoup60k =
     \<lparr> position = Some 60000, index = None,
       attributes = (), boundingSphere = None, boundingBox = None \<rparr>"

text \<open>
  The number of triangles the loop pushes from counter \<open>i\<close> on, for an array of length
  \<open>n\<close> and a stride \<open>s\<close>.
\<close>

definition kept :: "nat \<Rightarrow> nat \<Rightarrow> nat \<Rightarrow> nat" where
  "kept n s i = (if i + 2 < n then (n - 3 - i) div s + 1 else 0)"

text \<open>The triangle whose first index stands at position \<open>i\<close> of the index array.\<close>

definition triangleAt :: "nat list \<Rightarrow> nat \<Rightarrow> nat list" where
  "triangleAt arr i = [arr ! i, arr ! (i + 1), arr ! (i + 2)]"


section \<open>Renderer factory\<close>

text \<open>
  \<^verbatim>\<open>makeRenderer\<close> and the functions it calls. Each platform call is a point
  where an exception may be thrown: in the WebGPU path the dynamic import, the
  constructor, \<^verbatim>\<open>init()\<close>, the configuration calls, and in the smoke test
  \<^verbatim>\<open>setSize\<close>, \<^verbatim>\<open>render\<close> and the disposal of the test scene; in the
  WebGL path the constructor \<^verbatim>\<open>new THREE.WebGLRenderer\<close>, which throws when no
  WebGL context is obtained. The platform of one call says which of them throw
  (\<open>throws\<close>), whether \<^verbatim>\<open>navigator.gpu\<close> is present and whether the renderer
  has a backend device. The WebGPU path runs inside \<^verbatim>\<open>try\<close> blocks that turn an
  exception into \<^verbatim>\<open>false\<close> or \<^verbatim>\<open>null\<close>; the WebGL path has none, so its
  exception leaves \<^verbatim>\<open>makeRenderer\<close> and the promise rejects (\<open>Inl\<close>). Each
  function returns its value together with the platform calls it made, in order.
\<close>

datatype call =
    ImportWebGPURenderer | ConstructWebGPU | InitWebGPU | ConfigureWebGPU
  | SmokeSetSize | SmokeRender | SmokeDispose | DisposeWebGPU | ConstructWebGL

datatype thrown = WebGLContextError | QuotaExceededError

record platform =
  gpu :: bool
  navigatorUserAgent :: string
  devicePixelRatio :: real
  backendDevice :: bool
  throws :: "call \<Rightarrow> bool"

datatype powerPreference = LowPower | HighPerformance

record webglRenderer =
  antialias :: bool
  powerPref :: powerPreference
  logarithmicDepthBuffer :: bool
  preserveDrawingBuffer :: bool
  failIfMajorPerformanceCaveat :: bool
  shadowMapEnabled :: bool
  pixelRatio :: real

datatype renderer = WebGLRenderer webglRenderer | WebGPURenderer

datatype RendererType = webgpu | webgl2

record RendererResult =
  renderer :: renderer
  rendererType :: RendererType

text \<open>\<^verbatim>\<open>/iPad|iPhone|iPod/.test(s)\<close>: here the letters are compared as they are.\<close>

definition regex_test :: "string list \<Rightarrow> string \<Rightarrow> bool" where
  "regex_test alternatives s = list_ex (str_includes s) alternatives"

definition smokeTestWebGPU :: "platform \<Rightarrow> bool \<times> call list" where
  "smokeTestWebGPU p =
     (if \<not> backendDevice p then (False, [])
      else if throws p SmokeSetSize then (False, [SmokeSetSize])
      else if throws p SmokeRender then (False, [SmokeSetSize, SmokeRender])
      else if throws p SmokeDispose then (False, [SmokeSetSize, SmokeRender, SmokeDispose])
      else (True, [SmokeSetSize, SmokeRender, SmokeDispose]))"

text \<open>
  \<^verbatim>\<open>createWebGLRenderer\<close> has no \<^verbatim>\<open>try\<close> block: when the constructor
  throws, so does the function. Otherwise it gives the renderer configured for the tier.
  The two event handlers it installs on the canvas are modelled below.
\<close>

definition createWebGLRenderer :: "platform \<Rightarrow> string \<Rightarrow> thrown + webglRenderer" where
  "createWebGLRenderer p tierName =
     (let isMobile' = startsWith tierName ''mobile'';
          isIOS' = regex_test [''iPad'', ''iPhone'', ''iPod''] (navigatorUserAgent p)
      in if throws p ConstructWebGL then Inl WebGLContextError
         else Inr \<lparr> antialias = (\<not> isMobile'),
                    powerPref = (if isMobile' then LowPower else HighPerformance),
                    logarithmicDepthBuffer = (\<not> isMobile'),
                    preserveDrawingBuffer = (\<not> (isIOS' \<and> isMobile')),
                    failIfMajorPerformanceCaveat = (isIOS' \<and> isMobile'),
                    shadowMapEnabled = (\<not> isMobile'),
                    pixelRatio = (if isMobile' then 1 else min (devicePixelRatio p) 2) \<rparr>)"

definition createWebGPURenderer :: "platform \<Rightarrow> renderer option \<times> call list" where
  "createWebGPURenderer p =
     (if throws p ImportWebGPURenderer then (None, [ImportWebGPURenderer])
      else if throws p ConstructWebGPU then (None, [ImportWebGPURenderer, ConstructWebGPU])
      else if throws p InitWebGPU
        then (None, [ImportWebGPURenderer, ConstructWebGPU, InitWebGPU])
      else if throws p ConfigureWebGPU
        then (None, [ImportWebGPURenderer, ConstructWebGPU, InitWebGPU, ConfigureWebGPU])
      else
        let (smokeOk, smokeCalls) = smokeTestWebGPU p;
            calls = [ImportWebGPURenderer, ConstructWebGPU, InitWebGPU, ConfigureWebGPU]
                    @ smokeCalls
        in if \<not> smokeOk then (None, calls @ [DisposeWebGPU])
           else (Some WebGPURenderer, calls))"

definition makeRenderer ::
  "platform \<Rightarrow> string \<Rightarrow> (thrown + RendererResult) \<times> call list" where
  "makeRenderer p tierName =
     (let hasWebGPU = gpu p in
      if \<not> hasWebGPU \<or> \<not> str_includes tierName ''webgpu''
      then (case createWebGLRenderer p tierName of
              Inl e \<Rightarrow> (Inl e, [ConstructWebGL])
            | Inr r \<Rightarrow> (Inr \<lparr> renderer = WebGLRenderer r, rendererType = webgl2 \<rparr>,
                          [ConstructWebGL]))
      else
        let (webgpuRenderer, calls) = createWebGPURenderer p in
        case webgpuRenderer of
          Some r \<Rightarrow> (Inr \<lparr> renderer = r, rendererType = webgpu \<rparr>, calls)
        | None \<Rightarrow>
            (case createWebGLRenderer p tierName of
               Inl e \<Rightarrow> (Inl e, calls @ [ConstructWebGL])
             | Inr r \<Rightarrow> (Inr \<lparr> renderer = WebGLRenderer r, rendererType = webgl2 \<rparr>,
                           calls @ [ConstructWebGL])))"

text \<open>
  Two platforms with WebGPU whose smoke-test render throws: on the first a WebGL context
  can be created, on the second it cannot.
\<close>

definition examplePlatform :: platform where
  "examplePlatform =
     \<lparr> gpu = True, navigatorUserAgent = ''Mozilla/5.0 (X11; Linux x86_64)'',
       devicePixelRatio = 1, backendDevice = True,
       throws = (\<lambda>c. c = SmokeRender) \<rparr>"

definition noWebGLPlatform :: platform where
  "noWebGLPlatform =
     \<lparr> gpu = True, navigatorUserAgent = ''Mozilla/5.0 (X11; Linux x86_64)'',
       devicePixelRatio = 1, backendDevice = True,
       throws = (\<lambda>c. c = SmokeRender \<or> c = ConstructWebGL) \<rparr>"

subsection \<open>Context loss and restore handlers\<close>

text \<open>
  The listeners for \<^verbatim>\<open>webglcontextlost\<close> and
  \<^verbatim>\<open>webglcontextrestored\<close>. A page holds what the handlers read and change:
  whether the local storage refuses writes (it is full or blocked, and
  \<^verbatim>\<open>localStorage.setItem\<close> throws), the default-prevented flag of the event, the
  local storage, the children of the document body, and the log of the actions completed,
  oldest first. The listener has no \<^verbatim>\<open>try\<close> block: an exception ends it where
  it is thrown, and what was done before stays done. A handler returns the page it leaves
  and the exception that ended it, if any.
\<close>

datatype action =
    PreventDefault | ConsoleError | ConsoleLog | SetItem string string | RemoveItem string
  | CreateBanner | AppendBanner | Reload

datatype element = GraphicsErrorBanner

record page =
  storageRefusesWrites :: bool
  defaultPrevented :: bool
  localStorage :: "string \<Rightarrow> string option"
  body :: "element list"
  actions :: "action list"

definition perform :: "action \<Rightarrow> page \<Rightarrow> page" where
  "perform a pg = pg\<lparr>actions := actions pg @ [a]\<rparr>"

definition preventDefault :: "page \<Rightarrow> page" where
  "preventDefault pg = perform PreventDefault (pg\<lparr>defaultPrevented := True\<rparr>)"

definition setItem :: "string \<Rightarrow> string \<Rightarrow> page \<Rightarrow> thrown + page" where
  "setItem k v pg =
     (if storageRefusesWrites pg then Inl QuotaExceededError
      else Inr (perform (SetItem k v) (pg\<lparr>localStorage := (localStorage pg)(k \<mapsto> v)\<rparr>)))"

definition removeItem :: "string \<Rightarrow> page \<Rightarrow> page" where
  "removeItem k pg = perform (RemoveItem k) (pg\<lparr>localStorage := (localStorage pg)(k := None)\<rparr>)"

definition appendChild :: "element \<Rightarrow> page \<Rightarrow> page" where
  "appendChild el pg = perform AppendBanner (pg\<lparr>body := body pg @ [el]\<rparr>)"

definition onContextLost :: "page \<Rightarrow> page \<times> thrown option" where
  "onContextLost pg =
     (let pg1 = preventDefault pg;
          pg2 = perform ConsoleError pg1
      in case setItem ''webglContextLost'' ''true'' pg2 of
           Inl e \<Rightarrow> (pg2, Some e)
         | Inr pg3 \<Rightarrow>
             (let pg4 = perform CreateBanner pg3
              in (appendChild GraphicsErrorBanner pg4, None)))"

definition onContextRestored :: "page \<Rightarrow> page" where
  "onContextRestored pg =
     (let pg1 = perform ConsoleLog pg;
          pg2 = removeItem ''webglContextLost'' pg1
      in perform Reload pg2)"

text \<open>A page whose storage is full, before any event.\<close>

definition fullStoragePage :: page where
  "fullStoragePage =
     \<lparr> storageRefusesWrites = True, defaultPrevented = False, localStorage = (\<lambda>k. None),
       body = [], actions = [] \<rparr>"

section \<open>Shadow frustum fitting\<close>

text \<open>
  Modelled from the spec: the shadow frustum fitter (\<^verbatim>\<open>ShadowFit.tsx\<close>) is not
  among the sources; the technical analysis only sketches it. The spec (3 and 4.6) gives a
  shadow frustum as the six light-space orthographic bounds left, right, top, bottom, near
  and far, and the light's projection matrix as recomputed from them;
  \<open>projectionBounds\<close> records the bounds from which the matrix was last recomputed.
\<close>

type_synonym 'c vec3 = "'c \<times> 'c \<times> 'c"

definition vx :: "'c vec3 \<Rightarrow> 'c" where "vx v = fst v"
definition vy :: "'c vec3 \<Rightarrow> 'c" where "vy v = fst (snd v)"
definition vz :: "'c vec3 \<Rightarrow> 'c" where "vz v = snd (snd v)"

record 'c box3 =
  box_min :: "'c vec3"
  box_max :: "'c vec3"

record 'c orthographicCamera =
  cam_left :: 'c
  cam_right :: 'c
  cam_top :: 'c
  cam_bottom :: 'c
  cam_near :: 'c
  cam_far :: 'c
  projectionBounds :: "'c \<times> 'c \<times> 'c \<times> 'c \<times> 'c \<times> 'c"

record ('c, 'm) directionalLight =
  lightSpace :: 'm
  shadowCamera :: "'c orthographicCamera"

text \<open>
  Modelled from the spec: the geometry the fitter relies on is not among the sources and
  is a parameter: which objects intersect the camera's view frustum, the world-space
  bounding volume of an object, the union of two volumes, and the transformation of a
  volume into the light's coordinate space.
\<close>

record ('o, 'k, 'm, 'c) sceneGeometry =
  intersectsFrustum :: "'k \<Rightarrow> 'o \<Rightarrow> bool"
  boundingVolume :: "'o \<Rightarrow> 'c box3"
  unionVolume :: "'c box3 \<Rightarrow> 'c box3 \<Rightarrow> 'c box3"
  toLightSpace :: "'m \<Rightarrow> 'c box3 \<Rightarrow> 'c box3"

text \<open>Modelled from the spec: the projection matrix is recomputed from the bounds.\<close>

definition updateProjectionMatrix :: "'c orthographicCamera \<Rightarrow> 'c orthographicCamera" where
  "updateProjectionMatrix cam =
     cam\<lparr>projectionBounds :=
           (cam_left cam, cam_right cam, cam_top cam, cam_bottom cam, cam_near cam, cam_far cam)\<rparr>"

text \<open>
  Modelled from the spec: one frame of the fitter, whose code is not among the sources.
  Spec 4.6: it runs only when the tier enables dynamic shadows; it computes the union of
  the world-space bounding volumes of every object intersecting the camera's view frustum,
  transforms that volume into the light's coordinate space, sets the light's orthographic
  bounds to exactly the transformed volume's extents and recomputes the projection matrix;
  if no object intersects the frustum this frame, it retains the previous frame's frustum
  unchanged.
\<close>

definition fitShadowFrustum ::
  "('o, 'k, 'm, 'c) sceneGeometry \<Rightarrow> bool \<Rightarrow> ('c, 'm) directionalLight \<Rightarrow> 'o list \<Rightarrow> 'k
     \<Rightarrow> ('c, 'm) directionalLight" where
  "fitShadowFrustum S shadowsEnabled light scene camera =
     (if \<not> shadowsEnabled then light
      else case filter (intersectsFrustum S camera) scene of
             [] \<Rightarrow> light
           | obj # objs \<Rightarrow>
               (let volume = foldl (\<lambda>v ob. unionVolume S v (boundingVolume S ob))
                                   (boundingVolume S obj) objs;
                    lightSpaceBox = toLightSpace S (lightSpace light) volume;
                    cam = (shadowCamera light)
                            \<lparr> cam_left := vx (box_min lightSpaceBox),
                              cam_right := vx (box_max lightSpaceBox),
                              cam_top := vy (box_max lightSpaceBox),
                              cam_bottom := vy (box_min lightSpaceBox),
                              cam_near := vz (box_min lightSpaceBox),
                              cam_far := vz (box_max lightSpaceBox) \<rparr>
                in light\<lparr>shadowCamera := updateProjectionMatrix cam\<rparr>))"

text \<open>The six bounds of a camera, and the six extents of a volume in the same order.\<close>

definition frustumBounds :: "'c orthographicCamera \<Rightarrow> 'c \<times> 'c \<times> 'c \<times> 'c \<times> 'c \<times> 'c" where
  "frustumBounds cam =
     (cam_left cam, cam_right cam, cam_top cam, cam_bottom cam, cam_near cam, cam_far cam)"

definition boxExtents :: "'c box3 \<Rightarrow> 'c \<times> 'c \<times> 'c \<times> 'c \<times> 'c \<times> 'c" where
  "boxExtents b =
     (vx (box_min b), vx (box_max b), vy (box_max b), vy (box_min b), vz (box_min b),
      vz (box_max b))"

text \<open>
  A concrete scene with integer coordinates: objects are given by their bounding boxes, a
  camera by the objects its frustum intersects, and the light's space is the world's.
\<close>

definition box_union :: "int box3 \<Rightarrow> int box3 \<Rightarrow> int box3" where
  "box_union a b =
     \<lparr> box_min = (min (vx (box_min a)) (vx (box_min b)),
                  min (vy (box_min a)) (vy (box_min b)),
                  min (vz (box_min a)) (vz (box_min b))),
       box_max = (max (vx (box_max a)) (vx (box_max b)),
                  max (vy (box_max a)) (vy (box_max b)),
                  max (vz (box_max a)) (vz (box_max b))) \<rparr>"

definition boxScene :: "(int box3, int box3 \<Rightarrow> bool, unit, int) sceneGeometry" where
  "boxScene =
     \<lparr> intersectsFrustum = (\<lambda>camera obj. camera obj),
       boundingVolume = (\<lambda>obj. obj),
       unionVolume = box_union,
       toLightSpace = (\<lambda>m b. b) \<rparr>"

definition unitCube :: "int box3" where
  "unitCube = \<lparr> box_min = (0, 0, 0), box_max = (1, 1, 1) \<rparr>"

definition lookingAway :: "int box3 \<Rightarrow> bool" where
  "lookingAway obj = False"

definition lookingAtAll :: "int box3 \<Rightarrow> bool" where
  "lookingAtAll obj = True"

definition previousLight :: "(int, unit) directionalLight" where
  "previousLight =
     \<lparr> lightSpace = (),
       shadowCamera =
         \<lparr> cam_left = - 10, cam_right = 10, cam_top = 10, cam_bottom = - 10,
           cam_near = 1, cam_far = 50,
           projectionBounds = (- 10, 10, 10, - 10, 1, 50) \<rparr> \<rparr>"

section \<open>Frame performance governor\<close>

text \<open>
  The knowledge base gives the constants of the governor: a jank threshold of 50 ms, a
  tolerance of 8 frames, and three degradation stages.
\<close>

definition jankThreshold :: real where "jankThreshold = 50"
definition jankTolerance :: nat where "jankTolerance = 8"
definition degradationStages :: nat where "degradationStages = 3"

text \<open>
  Modelled from the spec: the governor itself (the code that keeps the window and advances
  the stage) is not among the sources; only its constants are. The spec has it active on
  the constrained tier only, keeping a rolling window of the last \<open>N\<close> frame samples
  (\<open>N\<close> is not given and is a parameter); a frame is janky when its duration exceeds the
  threshold; when the janky frames in the window exceed the tolerance the governor advances
  one stage, up to the last one, and never goes back. The window is emptied when a stage is
  applied, which is what makes ten janky frames in a row advance exactly one stage.
\<close>

record frameSample =
  timestamp :: real
  duration :: real

record governor =
  window :: "frameSample list"
  stage :: nat

text \<open>Modelled from the spec: a frame is janky if its duration exceeds the threshold.\<close>

definition isJank :: "frameSample \<Rightarrow> bool" where
  "isJank f = (duration f > jankThreshold)"

text \<open>Modelled from the spec: the rolling window keeps the most recent \<open>N\<close> samples.\<close>

definition pushSample :: "nat \<Rightarrow> frameSample list \<Rightarrow> frameSample \<Rightarrow> frameSample list" where
  "pushSample N w f = (let w' = w @ [f] in drop (length w' - N) w')"

text \<open>
  Modelled from the spec: one frame boundary of the governor, which the sources do not
  contain.
\<close>

definition governorFrame :: "nat \<Rightarrow> Tier \<Rightarrow> governor \<Rightarrow> frameSample \<Rightarrow> governor" where
  "governorFrame N t g f =
     (if t \<noteq> mobileLow then g
      else
        let w = pushSample N (window g) f in
        if length (filter isJank w) > jankTolerance
        then \<lparr> window = [],
               stage = (if stage g < degradationStages then stage g + 1 else stage g) \<rparr>
        else g\<lparr>window := w\<rparr>)"

text \<open>Modelled from the spec: a session is the sequence of its frames.\<close>

definition governorRun :: "nat \<Rightarrow> Tier \<Rightarrow> governor \<Rightarrow> frameSample list \<Rightarrow> governor" where
  "governorRun N t g frames = foldl (governorFrame N t) g frames"

definition frames :: "real list \<Rightarrow> frameSample list" where
  "frames ds = map (\<lambda>d. \<lparr> timestamp = 0, duration = d \<rparr>) ds"

section \<open>Theorems\<close>

subsection \<open>String search\<close>

text \<open>The two string tests are the prefix test and the search for a substring.\<close>

lemma startsWith_iff: "startsWith s p = (\<exists>vs. s = p @ vs)"
  by (induction s p rule: startsWith.induct) auto

lemma str_includes_iff: "str_includes s p = (\<exists>us vs. s = us @ p @ vs)"
proof (induction s)
  case Nil
  show ?case by auto
next
  case (Cons c cs)
  show ?case
  proof
    assume "str_includes (c # cs) p"
    then consider "startsWith (c # cs) p" | "str_includes cs p" by auto
    then show "\<exists>us vs. c # cs = us @ p @ vs"
    proof cases
      case 1
      then obtain vs where "c # cs = p @ vs" by (auto simp: startsWith_iff)
      then have "c # cs = [] @ p @ vs" by simp
      then show ?thesis by blast
    next
      case 2
      with Cons obtain us vs where "cs = us @ p @ vs" by auto
      then have "c # cs = (c # us) @ p @ vs" by simp
      then show ?thesis by blast
    qed
  next
    assume "\<exists>us vs. c # cs = us @ p @ vs"
    then obtain us vs where e: "c # cs = us @ p @ vs" by blast
    show "str_includes (c # cs) p"
    proof (cases us)
      case Nil
      with e have "startsWith (c # cs) p" by (auto simp: startsWith_iff)
      then show ?thesis by simp
    next
      case (Cons u us')
      with e have "cs = us' @ p @ vs" by simp
      with Cons.IH have "str_includes cs p" by blast
      then show ?thesis by simp
    qed
  qed
qed

subsection \<open>Device classification\<close>

lemma PerfFlags_isMobile:
  "isMobile (PerfFlags s) =
     (isMobileUA (userAgent s) \<or> (isTouchDevice s \<and> isNarrowViewport s)
      \<or> hasLowMemory s \<or> isSimulatorSize s)"
  by (simp add: PerfFlags_def Let_def)

lemma PerfFlags_tier:
  "tier (PerfFlags s) = (if isMobile (PerfFlags s) then mobileLow else desktopHigh)"
  by (simp add: PerfFlags_def Let_def)

lemma hasLowMemory_iff:
  "hasLowMemory s = (\<exists>m. deviceMemory s = Some m \<and> m \<noteq> 0 \<and> m \<le> 4)"
  by (cases "deviceMemory s") (simp_all add: hasLowMemory_def)

text \<open>
  C1. For every tuple of signals the classifier selects the constrained tier
  \<open>mobileLow\<close> if and only if the user agent matches the handheld pattern, or the device
  has touch capability and the viewport is narrower than 768, or the reported device memory
  is at most 4, or the viewport is below 600 in width or in height; otherwise it selects
  \<open>desktopHigh\<close>. A device memory is reported when the property is present and truthy
  (\<^verbatim>\<open>deviceMemory ? ... : false\<close>).
\<close>

theorem classifier_tier_disjunction:
  "(tier (PerfFlags s) = mobileLow) =
     (isMobileUA (userAgent s)
      \<or> ((ontouchstart s \<or> 0 < maxTouchPoints s) \<and> innerWidth s < 768)
      \<or> (\<exists>m. deviceMemory s = Some m \<and> m \<noteq> 0 \<and> m \<le> 4)
      \<or> innerWidth s < 600 \<or> innerHeight s < 600)
   \<and> (tier (PerfFlags s) = desktopHigh) =
     (\<not> (isMobileUA (userAgent s)
      \<or> ((ontouchstart s \<or> 0 < maxTouchPoints s) \<and> innerWidth s < 768)
      \<or> (\<exists>m. deviceMemory s = Some m \<and> m \<noteq> 0 \<and> m \<le> 4)
      \<or> innerWidth s < 600 \<or> innerHeight s < 600))"
proof -
  have "(tier (PerfFlags s) = mobileLow) = isMobile (PerfFlags s)"
    by (simp add: PerfFlags_tier)
  moreover have "(tier (PerfFlags s) = desktopHigh) = (\<not> isMobile (PerfFlags s))"
    by (simp add: PerfFlags_tier)
  ultimately show ?thesis
    by (simp add: PerfFlags_isMobile hasLowMemory_iff isTouchDevice_def isNarrowViewport_def
        isSimulatorSize_def)
qed

text \<open>The two scenarios of the spec: a phone and a desktop.\<close>

lemma classify_phone: "tier (PerfFlags phoneSignals) = mobileLow"
  by (simp add: PerfFlags_tier PerfFlags_isMobile isSimulatorSize_def phoneSignals_def)

lemma isMobileUA_desktop: "\<not> isMobileUA ''Mozilla/5.0 (X11; Linux x86_64)''"
  by code_simp

lemma classify_desktop: "tier (PerfFlags desktopSignals) = desktopHigh"
  by (simp add: PerfFlags_tier PerfFlags_isMobile isSimulatorSize_def isTouchDevice_def
      hasLowMemory_def isMobileUA_desktop desktopSignals_def)

subsection \<open>Tier type\<close>

lemma Tier_UNIV: "(UNIV :: Tier set) = {mobileLow, desktopHigh}"
  by (auto intro: Tier.exhaust)

text \<open>
  C8 (as amended). The tier that classification produces is the type
  \<^verbatim>\<open>"mobileLow" | "desktopHigh"\<close>: an enumeration of exactly two variants. Every
  classification result is one of the two, and each of the two is the result for some
  signals. The three names LOW, BALANCED and HIGH are the keys of the knowledge base's
  table, which classification does not produce.
\<close>

theorem tier_has_two_variants:
  "(UNIV :: Tier set) = {mobileLow, desktopHigh}
   \<and> mobileLow \<noteq> desktopHigh
   \<and> tier (PerfFlags s) \<in> {mobileLow, desktopHigh}
   \<and> tier (PerfFlags phoneSignals) = mobileLow
   \<and> tier (PerfFlags desktopSignals) = desktopHigh"
proof -
  have "tier (PerfFlags s) \<in> {mobileLow, desktopHigh}"
    by (simp add: PerfFlags_tier)
  with Tier_UNIV classify_phone classify_desktop show ?thesis
    by simp
qed

text \<open>The tier type does not have three variants.\<close>

theorem tier_three_variants_counterexample:
  "card (UNIV :: Tier set) = 2 \<and> (UNIV :: Tier set) = {mobileLow, desktopHigh}"
  by (simp add: Tier_UNIV)

subsection \<open>Tier table\<close>

text \<open>
  C7. For each resource-cost field of the tier table (pixel ratio, shadow map size, maximal
  texture size, anisotropy, maximal canvas pixels) the value of LOW is at most the value of
  BALANCED, which is at most the value of HIGH.
\<close>

theorem tier_table_monotone:
  "config_pixelRatio (performanceTiers LOW) \<le> config_pixelRatio (performanceTiers BALANCED)
   \<and> config_pixelRatio (performanceTiers BALANCED) \<le> config_pixelRatio (performanceTiers HIGH)
   \<and> config_shadowMapSize (performanceTiers LOW) \<le> config_shadowMapSize (performanceTiers BALANCED)
   \<and> config_shadowMapSize (performanceTiers BALANCED) \<le> config_shadowMapSize (performanceTiers HIGH)
   \<and> config_maxTextureSize (performanceTiers LOW) \<le> config_maxTextureSize (performanceTiers BALANCED)
   \<and> config_maxTextureSize (performanceTiers BALANCED) \<le> config_maxTextureSize (performanceTiers HIGH)
   \<and> config_anisotropy (performanceTiers LOW) \<le> config_anisotropy (performanceTiers BALANCED)
   \<and> config_anisotropy (performanceTiers BALANCED) \<le> config_anisotropy (performanceTiers HIGH)
   \<and> config_maxCanvasPixels (performanceTiers LOW) \<le> config_maxCanvasPixels (performanceTiers BALANCED)
   \<and> config_maxCanvasPixels (performanceTiers BALANCED) \<le> config_maxCanvasPixels (performanceTiers HIGH)"
  by simp

text \<open>The two cost fields of \<^verbatim>\<open>PerfFlags\<close> are ordered the same way.\<close>

lemma PerfFlags_costs_monotone:
  assumes "tier (PerfFlags s) = mobileLow" and "tier (PerfFlags s') = desktopHigh"
  shows "anisotropy (PerfFlags s) \<le> anisotropy (PerfFlags s')
         \<and> maxTextureSize (PerfFlags s) \<le> maxTextureSize (PerfFlags s')"
  using assms by (simp add: PerfFlags_def Let_def split: if_splits)

subsection \<open>Geometry decimation\<close>

text \<open>What the loop collects: the triangles at the multiples of the stride.\<close>

lemma kept_step:
  assumes "0 < s" and "i + 2 < n"
  shows "kept n s i = Suc (kept n s (i + s))"
proof (cases "i + s + 2 < n")
  case True
  define a where "a = n - 3 - (i + s)"
  from True have "n - 3 - i = a + s" unfolding a_def by arith
  moreover have "(a + s) div s = a div s + 1"
    using assms(1) by (simp only: div_add_self2 neq0_conv[symmetric] simp_thms)
  ultimately have "(n - 3 - i) div s = (n - 3 - (i + s)) div s + 1"
    unfolding a_def by (simp only:)
  then show ?thesis using assms(2) True by (simp add: kept_def)
next
  case False
  then have "n - 3 - i < s" using assms(2) by arith
  then show ?thesis using assms(2) False by (simp add: kept_def)
qed

lemma collect_content:
  assumes "0 < s"
  shows "collect arr (Fin (int s)) (Fin (int i)) acc =
           Some (acc @ concat (map (\<lambda>k. triangleAt arr (i + k * s))
                                 [0..<kept (length arr) s i]))"
proof (induction "length arr - i" arbitrary: i acc rule: less_induct)
  case less
  show ?case
  proof (cases "i < length arr")
    case False
    then show ?thesis
      by (subst collect.simps) (simp add: kept_def)
  next
    case True
    then have dec: "length arr - (i + s) < length arr - i" using assms by arith
    show ?thesis
    proof (cases "i + 2 < length arr")
      case False
      then have "\<not> i + s + 2 < length arr" by simp
      then have k: "kept (length arr) s (i + s) = 0" "kept (length arr) s i = 0"
        using False by (simp_all add: kept_def)
      from less[OF dec, of acc] k(1)
      have "collect arr (Fin (int s)) (Fin (int (i + s))) acc = Some acc" by simp
      with True False k(2) show ?thesis
        by (subst collect.simps) (simp add: add.commute)
    next
      case t: True
      have acc': "acc @ [array_at arr (Fin (int i)), array_at arr (js_add (Fin (int i)) (Fin 1)),
                         array_at arr (js_add (Fin (int i)) (Fin 2))]
                  = acc @ triangleAt arr i"
        using t by (simp add: triangleAt_def nat_add_distrib)
      have k: "kept (length arr) s i = Suc (kept (length arr) s (i + s))"
        by (rule kept_step[OF assms t])
      have shift: "map (\<lambda>k. triangleAt arr (i + k * s)) [0..<Suc (kept (length arr) s (i + s))]
                   = triangleAt arr i
                     # map (\<lambda>k. triangleAt arr (i + s + k * s)) [0..<kept (length arr) s (i + s)]"
        by (simp only: upt_conv_Cons[OF zero_less_Suc] map_Suc_upt[symmetric] list.map map_map
              o_def) (simp add: algebra_simps)
      from less[OF dec, of "acc @ triangleAt arr i"]
      have "collect arr (Fin (int s)) (Fin (int (i + s))) (acc @ triangleAt arr i) =
              Some (acc @ concat (map (\<lambda>k. triangleAt arr (i + k * s))
                                    [0..<kept (length arr) s i]))"
        by (simp only: k shift) simp
      with True t acc' show ?thesis
        by (subst collect.simps) (simp add: add.commute)
    qed
  qed
qed

lemma length_triangles:
  "length (concat (map (\<lambda>k. triangleAt arr (f k)) ks)) = 3 * length ks"
  by (induction ks) (simp_all add: triangleAt_def)

lemma collect_length:
  assumes "0 < s"
  shows "\<exists>ys. collect arr (Fin (int s)) (Fin (int i)) acc = Some ys
            \<and> length ys = length acc + 3 * kept (length arr) s i"
  using collect_content[OF assms, of arr i acc] by (simp add: length_triangles)

lemma kept_in_range:
  assumes "k < kept n s i"
  shows "i + k * s + 2 < n"
proof -
  from assms have g: "i + 2 < n" and "k \<le> (n - 3 - i) div s"
    by (simp_all add: kept_def split: if_splits)
  then have "k * s \<le> (n - 3 - i) div s * s" by simp
  also have "\<dots> \<le> n - 3 - i" by simp
  finally show ?thesis using g by arith
qed

lemma collect_whole_triangles:
  assumes "0 < s" and "collect arr (Fin (int s)) (Fin 0) [] = Some ys"
  shows "set ys \<subseteq> set arr"
proof -
  from collect_content[OF assms(1), of arr 0 "[]"] assms(2)
  have ys: "ys = concat (map (\<lambda>k. triangleAt arr (0 + k * s)) [0..<kept (length arr) s 0])"
    by simp
  have "set (triangleAt arr (0 + k * s)) \<subseteq> set arr" if "k < kept (length arr) s 0" for k
  proof -
    from kept_in_range[OF that] have "k * s + 2 < length arr" by simp
    then show ?thesis by (simp add: triangleAt_def)
  qed
  then show ?thesis unfolding ys by fastforce
qed

lemma kept_bound:
  assumes "3 \<le> s"
  shows "3 * kept n s 0 \<le> n"
proof (cases "2 < n")
  case False
  then show ?thesis by (simp add: kept_def)
next
  case True
  have "(n - 3) div s \<le> (n - 3) div 3"
    using assms by (rule div_le_mono2[rotated]) simp
  moreover have "3 * ((n - 3) div 3) \<le> n - 3" by simp
  ultimately have "3 * ((n - 3) div s) \<le> n - 3" by linarith
  with True show ?thesis by (simp add: kept_def)
qed

lemma collect_finite_stride:
  assumes "1 \<le> c"
  shows "\<exists>ys. collect arr (js_times3 (Fin c)) (Fin 0) [] = Some ys
            \<and> length ys = 3 * kept (length arr) (nat (c * 3)) 0"
proof -
  have pos: "0 < nat (c * 3)" using assms by simp
  have "int (nat (c * 3)) = c * 3" using assms by simp
  with collect_length[OF pos, of arr 0 "[]"] show ?thesis by simp
qed

lemma collect_nonfinite_stride:
  assumes "stride = PosInf \<or> stride = NaN"
  shows "collect arr stride (Fin 0) [] =
           Some (if 2 < length arr then [arr ! 0, arr ! 1, arr ! 2] else [])"
proof -
  have after: "\<And>acc. collect arr stride (js_add (Fin 0) stride) acc = Some acc"
    using assms by (subst collect.simps) auto
  show ?thesis
    by (subst collect.simps) (auto simp: after)
qed

lemma step_of_nonneg_ratio:
  assumes "0 \<le> r"
  shows "step_of n \<lfloor>real n * r\<rfloor> = PosInf \<or> step_of n \<lfloor>real n * r\<rfloor> = NaN
         \<or> (\<exists>c. 1 \<le> c \<and> step_of n \<lfloor>real n * r\<rfloor> = Fin c)"
proof (cases "\<lfloor>real n * r\<rfloor> = 0")
  case True
  then show ?thesis by (simp add: step_of_def)
next
  case False
  have "0 \<le> real n * r" using assms by simp
  then have "0 \<le> \<lfloor>real n * r\<rfloor>" by simp
  with False have t: "0 < \<lfloor>real n * r\<rfloor>" by linarith
  have "n \<noteq> 0" using False by (cases "n = 0") simp_all
  then have "0 < real n / real_of_int \<lfloor>real n * r\<rfloor>" using t by simp
  then have "1 \<le> \<lceil>real n / real_of_int \<lfloor>real n * r\<rfloor>\<rceil>" by simp
  with False show ?thesis by (simp add: step_of_def)
qed

lemma collect_from_ratio:
  assumes "0 \<le> r"
  shows "\<exists>ys. collect arr (js_times3 (step_of (length arr) \<lfloor>real (length arr) * r\<rfloor>)) (Fin 0) []
               = Some ys
            \<and> length ys \<le> length arr \<and> 3 dvd length ys"
proof -
  let ?st = "step_of (length arr) \<lfloor>real (length arr) * r\<rfloor>"
  from step_of_nonneg_ratio[OF assms, of "length arr"]
  consider "?st = PosInf \<or> ?st = NaN" | c where "1 \<le> c" "?st = Fin c" by blast
  then show ?thesis
  proof cases
    case 1
    then have "js_times3 ?st = PosInf \<or> js_times3 ?st = NaN" by auto
    from collect_nonfinite_stride[OF this, of arr]
    have c: "collect arr (js_times3 ?st) (Fin 0) []
               = Some (if 2 < length arr then [arr ! 0, arr ! 1, arr ! 2] else [])" .
    have "length (if 2 < length arr then [arr ! 0, arr ! 1, arr ! 2] else []) \<le> length arr"
      by simp
    moreover have "3 dvd length (if 2 < length arr then [arr ! 0, arr ! 1, arr ! 2] else [])"
      by (simp add: numeral_3_eq_3)
    ultimately show ?thesis using c by blast
  next
    case 2
    from collect_finite_stride[OF 2(1), of arr] obtain ys where
      ys: "collect arr (js_times3 (Fin c)) (Fin 0) [] = Some ys"
          "length ys = 3 * kept (length arr) (nat (c * 3)) 0" by blast
    have "3 \<le> nat (c * 3)" using 2(1) by simp
    from kept_bound[OF this, of "length arr"] ys 2(2) show ?thesis by simp
  qed
qed

lemma simplify_below_guard:
  assumes "position (h ! g) = Some vertexCount" "vertexCount < 10000"
  shows "simplifyGeometryForMobile T h g r = Some (Inr (h, g))"
  using assms by (simp add: simplifyGeometryForMobile_def)

lemma simplify_indexed:
  assumes "position (h ! g) = Some vertexCount" "\<not> vertexCount < 10000"
    and "index (h ! g) = Some arr"
    and "collect arr (js_times3 (step_of (length arr) \<lfloor>real (length arr) * r\<rfloor>)) (Fin 0) []
           = Some ys"
  shows "simplifyGeometryForMobile T h g r =
           Some (Inr (h @ [(h ! g)\<lparr>index := Some ys,
                                  attributes := normalsOf T (Some ys) (attributes (h ! g)),
                                  boundingSphere := Some (boundingSphereOf T
                                     (normalsOf T (Some ys) (attributes (h ! g)))),
                                  boundingBox := Some (boundingBoxOf T
                                     (normalsOf T (Some ys) (attributes (h ! g))))\<rparr>],
                      length h))"
  using assms
  by (simp add: simplifyGeometryForMobile_def clone_def setIndex_def computeVertexNormals_def
      computeBoundingSphere_def computeBoundingBox_def Let_def)

lemma simplify_nonindexed:
  assumes "position (h ! g) = Some vertexCount" "\<not> vertexCount < 10000"
    and "index (h ! g) = None"
  shows "simplifyGeometryForMobile T h g r =
           Some (Inr (h @ [(h ! g)\<lparr>attributes := normalsOf T None (attributes (h ! g)),
                                  boundingSphere := Some (boundingSphereOf T
                                     (normalsOf T None (attributes (h ! g)))),
                                  boundingBox := Some (boundingBoxOf T
                                     (normalsOf T None (attributes (h ! g))))\<rparr>],
                      length h))"
  using assms
  by (simp add: simplifyGeometryForMobile_def clone_def setIndex_def computeVertexNormals_def
      computeBoundingSphere_def computeBoundingBox_def Let_def)

lemma step_of_three_tenths:
  assumes "18 \<le> n"
  shows "step_of n \<lfloor>real n * (3 / 10)\<rfloor> = Fin 4"
proof -
  define t where "t = (3 * int n) div 10"
  have "real n * (3 / 10) = real_of_int (3 * int n) / real_of_int 10" by simp
  then have fl: "\<lfloor>real n * (3 / 10)\<rfloor> = t"
    unfolding t_def by (simp only: floor_divide_of_int_eq)
  have "3 * int n = 10 * t + (3 * int n) mod 10"
    unfolding t_def by simp
  moreover have "0 \<le> (3 * int n) mod 10" "(3 * int n) mod 10 \<le> 9"
    by simp_all
  ultimately have tpos: "0 < t" and up: "int n \<le> 4 * t" and lo: "3 * t < int n"
    using assms by linarith+
  have "real n / real_of_int t \<le> 4"
    using tpos up by (simp add: pos_divide_le_eq) 
  moreover have "3 < real n / real_of_int t"
    using tpos lo by (simp add: pos_less_divide_eq)
  ultimately have "\<lceil>real n / real_of_int t\<rceil> = 4"
    by (intro ceiling_unique) simp_all
  with tpos fl show ?thesis by (simp add: step_of_def)
qed


lemma collect_nonpositive_stride:
  assumes "collect arr stride i acc = Some ys"
  shows "\<not> (\<exists>s k. stride = Fin s \<and> s \<le> 0 \<and> i = Fin k \<and> k < int (length arr))"
proof (rule collect.raw_induct[where P = "\<lambda>arr stride i acc ys.
          \<not> (\<exists>s k. stride = Fin s \<and> s \<le> 0 \<and> i = Fin k \<and> k < int (length arr))",
        OF _ assms])
  fix f :: "nat list \<Rightarrow> int jsnum \<Rightarrow> int jsnum \<Rightarrow> nat list \<Rightarrow> nat list option"
    and arr stride i acc ys
  assume IH: "\<And>arr stride i acc ys. f arr stride i acc = Some ys \<Longrightarrow>
          \<not> (\<exists>s k. stride = Fin s \<and> s \<le> 0 \<and> i = Fin k \<and> k < int (length arr))"
    and body: "(if js_lt i (length arr) then
        f arr stride (js_add i stride)
          (if js_lt (js_add i (Fin 2)) (length arr)
           then acc @ [array_at arr i, array_at arr (js_add i (Fin 1)),
                              array_at arr (js_add i (Fin 2))]
           else acc)
      else Some acc) = Some ys"
  show "\<not> (\<exists>s k. stride = Fin s \<and> s \<le> 0 \<and> i = Fin k \<and> k < int (length arr))"
  proof
    assume "\<exists>s k. stride = Fin s \<and> s \<le> 0 \<and> i = Fin k \<and> k < int (length arr)"
    then obtain s k where sk: "stride = Fin s" "s \<le> 0" "i = Fin k" "k < int (length arr)"
      by blast
    then have "js_lt i (length arr)" by simp
    with body obtain acc' where "f arr stride (js_add i stride) acc' = Some ys"
      by (simp split: if_splits)
    from IH[OF this] sk show False by simp
  qed
qed

lemma simplify_negative_ratio_diverges:
  assumes "position (h ! g) = Some vertexCount" and "\<not> vertexCount < 10000"
    and "index (h ! g) = Some arr" and "arr \<noteq> []" and "r < 0"
  shows "simplifyGeometryForMobile T h g r = None"
proof -
  define t where "t = \<lfloor>real (length arr) * r\<rfloor>"
  have n: "0 < length arr" using assms(4) by simp
  then have "real (length arr) * r < 0" using assms(5) by (simp add: mult_pos_neg)
  then have t: "t < 0" unfolding t_def by (simp add: floor_less_iff)
  then have "real (length arr) / real_of_int t < 0" using n by (simp add: divide_pos_neg)
  then have c: "\<lceil>real (length arr) / real_of_int t\<rceil> \<le> 0" by (simp add: ceiling_le_iff)
  have st: "step_of (length arr) t = Fin \<lceil>real (length arr) / real_of_int t\<rceil>"
    using t by (simp add: step_of_def)
  have "collect arr (js_times3 (step_of (length arr) t)) (Fin 0) [] = None"
  proof (cases "collect arr (js_times3 (step_of (length arr) t)) (Fin 0) []")
    case None
    then show ?thesis .
  next
    case (Some ys)
    from collect_nonpositive_stride[OF Some] st c n show ?thesis by simp
  qed
  then show ?thesis
    using assms(1-3)
    by (simp add: simplifyGeometryForMobile_def clone_def Let_def t_def)
qed

text \<open>
  C2. For every mesh (a geometry with a position attribute whose index buffer, if it has
  one, is a triangle list) and every target ratio that is not negative, the decimator
  returns; the index count of its output is at most the index count of its input and is
  divisible by 3 (a non-indexed geometry stays non-indexed); and when the vertex count is
  below the guard threshold of 10000 the output is the input itself, with the store
  unchanged.
\<close>

theorem decimator_index_count:
  assumes "position (h ! g) = Some vertexCount" and "0 \<le> r" and "triangleList (h ! g)"
  shows "\<exists>h' g'. simplifyGeometryForMobile T h g r = Some (Inr (h', g'))
           \<and> (case index (h ! g) of
                 None \<Rightarrow> index (h' ! g') = None
               | Some arr \<Rightarrow> (\<exists>ys. index (h' ! g') = Some ys
                                \<and> length ys \<le> length arr \<and> 3 dvd length ys))
           \<and> (vertexCount < 10000 \<longrightarrow> h' = h \<and> g' = g)"
proof (cases "vertexCount < 10000")
  case True
  from simplify_below_guard[OF assms(1) True]
  have "simplifyGeometryForMobile T h g r = Some (Inr (h, g))" .
  moreover have "case index (h ! g) of
                 None \<Rightarrow> index (h ! g) = None
               | Some arr \<Rightarrow> (\<exists>ys. index (h ! g) = Some ys
                                \<and> length ys \<le> length arr \<and> 3 dvd length ys)"
    using assms(3) by (simp add: triangleList_def split: option.splits)
  ultimately show ?thesis by blast
next
  case False
  show ?thesis
  proof (cases "index (h ! g)")
    case None
    from simplify_nonindexed[OF assms(1) False None, of T r] None False
    show ?thesis by simp
  next
    case (Some arr)
    from collect_from_ratio[OF assms(2), of arr] obtain ys where
      ys: "collect arr (js_times3 (step_of (length arr) \<lfloor>real (length arr) * r\<rfloor>)) (Fin 0) []
             = Some ys" "length ys \<le> length arr" "3 dvd length ys" by blast
    from simplify_indexed[OF assms(1) False Some ys(1), of T] Some False ys(2,3)
    show ?thesis by simp
  qed
qed

theorem decimator_index_count_witness:
  "position ([quad 12000] ! 0) = Some 12000 \<and> (0::real) \<le> 1 / 2 \<and> triangleList ([quad 12000] ! 0)
   \<and> (\<exists>h' g'. simplifyGeometryForMobile unitThree [quad 12000] 0 (1 / 2) = Some (Inr (h', g'))
           \<and> (case index ([quad 12000] ! 0) of
                 None \<Rightarrow> index (h' ! g') = None
               | Some arr \<Rightarrow> (\<exists>ys. index (h' ! g') = Some ys
                                \<and> length ys \<le> length arr \<and> 3 dvd length ys))
           \<and> ((12000::nat) < 10000 \<longrightarrow> h' = [quad 12000] \<and> g' = 0))"
proof -
  have a: "position ([quad 12000] ! 0) = Some 12000" by (simp add: quad_def)
  have b: "(0::real) \<le> 1 / 2" by simp
  have c: "triangleList ([quad 12000] ! 0)" by code_simp
  from decimator_index_count[OF a b c, of unitThree] a b c
  show ?thesis by blast
qed

text \<open>
  C10. The decimator never mutates its argument. Below the guard it returns the reference
  it was given and leaves the store as it is. Above the guard it returns a fresh reference,
  and every object that existed before the call, the argument among them, is as it was:
  the new index, the normals and the bounding volumes are written to the clone.
\<close>

theorem decimator_leaves_argument:
  assumes "position (h ! g) = Some vertexCount" and "0 \<le> r" and "g < length h"
  shows "\<exists>h' g'. simplifyGeometryForMobile T h g r = Some (Inr (h', g'))
           \<and> take (length h) h' = h \<and> h' ! g = h ! g
           \<and> (if vertexCount < 10000 then g' = g \<and> h' = h
               else g' = length h \<and> g' \<noteq> g \<and> length h' = Suc (length h))"
proof (cases "vertexCount < 10000")
  case True
  from simplify_below_guard[OF assms(1) True, of T r] True show ?thesis by simp
next
  case False
  show ?thesis
  proof (cases "index (h ! g)")
    case None
    from simplify_nonindexed[OF assms(1) False None, of T r] False assms(3)
    show ?thesis by (simp add: nth_append)
  next
    case (Some arr)
    from collect_from_ratio[OF assms(2), of arr] obtain ys where
      ys: "collect arr (js_times3 (step_of (length arr) \<lfloor>real (length arr) * r\<rfloor>)) (Fin 0) []
             = Some ys" by blast
    from simplify_indexed[OF assms(1) False Some ys, of T] False assms(3)
    show ?thesis by (simp add: nth_append)
  qed
qed

theorem decimator_leaves_argument_witness:
  "position ([quad 12000] ! 0) = Some 12000 \<and> (0::real) \<le> 1 / 2 \<and> (0::nat) < length [quad 12000]
   \<and> (\<exists>h' g'. simplifyGeometryForMobile unitThree [quad 12000] 0 (1 / 2) = Some (Inr (h', g'))
           \<and> take (length [quad 12000]) h' = [quad 12000] \<and> h' ! 0 = [quad 12000] ! 0
           \<and> (if (12000::nat) < 10000 then g' = 0 \<and> h' = [quad 12000]
               else g' = length [quad 12000] \<and> g' \<noteq> 0
                    \<and> length h' = Suc (length [quad 12000])))"
proof -
  have a: "position ([quad 12000] ! 0) = Some 12000" by (simp add: quad_def)
  have b: "(0::real) \<le> 1 / 2" by simp
  have c: "(0::nat) < length [quad 12000]" by simp
  from decimator_leaves_argument[OF a b c, of unitThree] a b c
  show ?thesis by blast
qed


lemma kept_quarter:
  assumes "n = 3 * t" and "0 < t"
  shows "kept n 12 0 = (t + 3) div 4"
proof -
  obtain u where u: "t = Suc u" using assms(2) by (cases t) simp_all
  have "n - 3 = 3 * u" using assms(1) u by simp
  then have "(n - 3) div 12 = (3 * u) div (3 * 4)" by simp
  also have "\<dots> = u div 4" by (rule div_mult_mult1) simp
  finally have "(n - 3) div 12 = u div 4" .
  moreover have "(t + 3) div 4 = u div 4 + 1" using u by simp
  moreover have "2 < n" using assms(1) u by simp
  ultimately show ?thesis by (simp add: kept_def)
qed

lemma collect_three_tenths:
  assumes "18 \<le> length arr" and "3 dvd length arr"
  shows "\<exists>ys. collect arr (js_times3 (step_of (length arr) \<lfloor>real (length arr) * (3 / 10)\<rfloor>))
                 (Fin 0) [] = Some ys
            \<and> length ys = 3 * ((length arr div 3 + 3) div 4)"
proof -
  from assms(2) obtain t where t: "length arr = 3 * t" by (auto simp: dvd_def)
  with assms(1) have tpos: "0 < t" by simp
  from collect_finite_stride[of 4 arr] obtain ys where
    ys: "collect arr (js_times3 (Fin 4)) (Fin 0) [] = Some ys"
        "length ys = 3 * kept (length arr) 12 0" by auto
  have "length arr div 3 = t" using t by simp
  with ys kept_quarter[OF t tpos] step_of_three_tenths[OF assms(1)] show ?thesis by simp
qed

lemma simplifyOnTraverse_unchanged:
  assumes "\<not> shouldSimplifyMesh h m isMobile'"
  shows "simplifyOnTraverse T h m isMobile' = Some (Inr (h, m))"
  using assms by (simp add: simplifyOnTraverse_def split: option.splits)

lemma shouldSimplifyMesh_large:
  assumes "geometry m = Some g" and "position (h ! g) = Some vertexCount"
  shows "shouldSimplifyMesh h m isMobile' = (isMobile' \<and> 50000 < vertexCount)"
  using assms by (simp add: shouldSimplifyMesh_def)

lemma simplifyOnTraverse_large:
  assumes "geometry m = Some g" and "position (h ! g) = Some vertexCount"
    and "50000 < vertexCount"
    and "simplifyGeometryForMobile T h g (3 / 10) = Some (Inr (h', g'))"
  shows "simplifyOnTraverse T h m True = Some (Inr (h', m\<lparr>geometry := Some g'\<rparr>))"
  using assms by (simp add: simplifyOnTraverse_def shouldSimplifyMesh_def)

text \<open>
  C9 (as amended). On the Low tier (\<open>isMobile\<close>) a mesh with more than 50000 vertices,
  60000 among them, is decimated with ratio 0.3. If it is indexed, with at least 18 indices
  in whole triangles, one triangle in four is kept: the step \<open>\<lceil>1 / 0.3\<rceil>\<close> is 4, and of
  \<open>t\<close> triangles \<open>(t + 3) div 4\<close> remain, a quarter rounded up. If it is not indexed, no
  triangle is removed. In both cases the result is a new geometry with the vertex count of
  the old, whose normals are recomputed from its index and whose bounding sphere and box
  are recomputed from its attributes.
\<close>

theorem low_tier_decimation_keeps_one_in_four:
  assumes "geometry m = Some g" and "position (h ! g) = Some vertexCount"
    and "50000 < vertexCount"
    and "case index (h ! g) of None \<Rightarrow> True | Some arr \<Rightarrow> 18 \<le> length arr \<and> 3 dvd length arr"
  shows "\<exists>G. simplifyOnTraverse T h m True
               = Some (Inr (h @ [G], m\<lparr>geometry := Some (length h)\<rparr>))
           \<and> position G = position (h ! g)
           \<and> attributes G = normalsOf T (index G) (attributes (h ! g))
           \<and> boundingSphere G = Some (boundingSphereOf T (attributes G))
           \<and> boundingBox G = Some (boundingBoxOf T (attributes G))
           \<and> (case index (h ! g) of
                 None \<Rightarrow> index G = None
               | Some arr \<Rightarrow> (\<exists>ys. index G = Some ys \<and> 3 dvd length ys
                                \<and> length ys div 3 = (length arr div 3 + 3) div 4))"
proof -
  have big: "\<not> vertexCount < 10000" using assms(3) by simp
  show ?thesis
  proof (cases "index (h ! g)")
    case None
    from simplifyOnTraverse_large[OF assms(1-3) simplify_nonindexed[OF assms(2) big None]] None
    show ?thesis by simp
  next
    case (Some arr)
    with assms(4) have arr: "18 \<le> length arr" "3 dvd length arr" by simp_all
    from collect_three_tenths[OF arr] obtain ys where
      ys: "collect arr (js_times3 (step_of (length arr) \<lfloor>real (length arr) * (3 / 10)\<rfloor>))
                 (Fin 0) [] = Some ys"
          "length ys = 3 * ((length arr div 3 + 3) div 4)" by blast
    from simplifyOnTraverse_large[OF assms(1-3) simplify_indexed[OF assms(2) big Some ys(1)]]
      Some ys(2)
    show ?thesis by simp
  qed
qed

theorem low_tier_decimation_keeps_one_in_four_witness:
  "geometry \<lparr>geometry = Some 0\<rparr> = Some 0 \<and> position ([indexedMesh60k] ! 0) = Some 60000
   \<and> (50000::nat) < 60000
   \<and> (case index ([indexedMesh60k] ! 0) of
         None \<Rightarrow> True | Some arr \<Rightarrow> 18 \<le> length arr \<and> 3 dvd length arr)
   \<and> (\<exists>G. simplifyOnTraverse unitThree [indexedMesh60k] \<lparr>geometry = Some 0\<rparr> True
               = Some (Inr ([indexedMesh60k] @ [G],
                    \<lparr>geometry = Some 0\<rparr>\<lparr>geometry := Some (length [indexedMesh60k])\<rparr>))
           \<and> position G = position ([indexedMesh60k] ! 0)
           \<and> attributes G = normalsOf unitThree (index G) (attributes ([indexedMesh60k] ! 0))
           \<and> boundingSphere G = Some (boundingSphereOf unitThree (attributes G))
           \<and> boundingBox G = Some (boundingBoxOf unitThree (attributes G))
           \<and> (case index ([indexedMesh60k] ! 0) of
                 None \<Rightarrow> index G = None
               | Some arr \<Rightarrow> (\<exists>ys. index G = Some ys \<and> 3 dvd length ys
                                \<and> length ys div 3 = (length arr div 3 + 3) div 4)))"
proof -
  have a: "geometry \<lparr>geometry = Some 0\<rparr> = Some 0" by simp
  have b: "position ([indexedMesh60k] ! 0) = Some 60000" by (simp add: indexedMesh60k_def)
  have c: "(50000::nat) < 60000" by simp
  have d: "case index ([indexedMesh60k] ! 0) of
         None \<Rightarrow> True | Some arr \<Rightarrow> 18 \<le> length arr \<and> 3 dvd length arr"
    by (simp add: indexedMesh60k_def)
  from low_tier_decimation_keeps_one_in_four[OF a b c d, of unitThree] a b c d
  show ?thesis by blast
qed

text \<open>
  Two meshes of 60000 vertices: of the 40000 triangles of the indexed one 10000 remain, a
  quarter and not three tenths; the 20000 triangles of the non-indexed one all remain.
\<close>

theorem low_tier_decimation_counterexample:
  "triangleCount indexedMesh60k = 40000
   \<and> resultTriangleCount (simplifyOnTraverse unitThree [indexedMesh60k] \<lparr>geometry = Some 0\<rparr> True)
       = Some 10000
   \<and> triangleCount triangleSoup60k = 20000
   \<and> resultTriangleCount (simplifyOnTraverse unitThree [triangleSoup60k] \<lparr>geometry = Some 0\<rparr> True)
       = Some 20000"
proof -
  have a: "geometry \<lparr>geometry = Some 0\<rparr> = Some 0" by simp
  have c: "(50000::nat) < 60000" by simp
  have big: "\<not> (60000::nat) < 10000" by simp
  have b1: "position ([indexedMesh60k] ! 0) = Some 60000" by (simp add: indexedMesh60k_def)
  have i1: "index ([indexedMesh60k] ! 0) = Some (map (\<lambda>i. i mod 60000) [0..<120000])"
    by (simp add: indexedMesh60k_def)
  have len: "length (map (\<lambda>i. i mod 60000) [0..<120000]) = 120000" by simp
  have "18 \<le> length (map (\<lambda>i. i mod 60000) [0..<120000])"
    and "3 dvd length (map (\<lambda>i. i mod 60000) [0..<120000])"
    by (simp_all only: len) simp_all
  from collect_three_tenths[OF this] obtain ys where
    ys: "collect (map (\<lambda>i. i mod 60000) [0..<120000])
           (js_times3 (step_of (length (map (\<lambda>i. i mod 60000) [0..<120000]))
              \<lfloor>real (length (map (\<lambda>i. i mod 60000) [0..<120000])) * (3 / 10)\<rfloor>))
           (Fin 0) [] = Some ys"
        "length ys = 3 * ((length (map (\<lambda>i. i mod 60000) [0..<120000]) div 3 + 3) div 4)"
    by blast
  have "length ys = 30000" by (simp only: ys(2) len) simp
  with simplifyOnTraverse_large[OF a b1 c simplify_indexed[OF b1 big i1 ys(1)], of unitThree]
  have r1: "resultTriangleCount
              (simplifyOnTraverse unitThree [indexedMesh60k] \<lparr>geometry = Some 0\<rparr> True)
            = Some 10000"
    by (simp add: resultTriangleCount_def triangleCount_def)
  have t1: "triangleCount indexedMesh60k = 40000"
    by (simp add: triangleCount_def indexedMesh60k_def)
  have b2: "position ([triangleSoup60k] ! 0) = Some 60000" by (simp add: triangleSoup60k_def)
  have i2: "index ([triangleSoup60k] ! 0) = None" by (simp add: triangleSoup60k_def)
  from simplifyOnTraverse_large[OF a b2 c simplify_nonindexed[OF b2 big i2], of unitThree]
  have r2: "resultTriangleCount
              (simplifyOnTraverse unitThree [triangleSoup60k] \<lparr>geometry = Some 0\<rparr> True)
            = Some 20000"
    by (simp add: resultTriangleCount_def triangleCount_def triangleSoup60k_def)
  have t2: "triangleCount triangleSoup60k = 20000"
    by (simp add: triangleCount_def triangleSoup60k_def)
  from t1 r1 t2 r2 show ?thesis by blast
qed

subsection \<open>Renderer factory\<close>

text \<open>The smoke test passes exactly when there is a backend device and no call of it throws.\<close>

lemma smokeTest_passes_iff:
  "fst (smokeTestWebGPU p) =
     (backendDevice p \<and> \<not> throws p SmokeSetSize \<and> \<not> throws p SmokeRender
      \<and> \<not> throws p SmokeDispose)"
  by (simp add: smokeTestWebGPU_def)

lemma count_smokeTest [simp]:
  "count_list (snd (smokeTestWebGPU p)) ConstructWebGPU = 0"
  "count_list (snd (smokeTestWebGPU p)) ConstructWebGL = 0"
  "count_list (snd (smokeTestWebGPU p)) DisposeWebGPU = 0"
  by (simp_all add: smokeTestWebGPU_def)

lemma createWebGPURenderer_smoke_failed:
  assumes "\<not> throws p ImportWebGPURenderer" "\<not> throws p ConstructWebGPU"
    "\<not> throws p InitWebGPU" "\<not> throws p ConfigureWebGPU"
    and "\<not> fst (smokeTestWebGPU p)"
  shows "createWebGPURenderer p =
           (None, [ImportWebGPURenderer, ConstructWebGPU, InitWebGPU, ConfigureWebGPU]
                  @ snd (smokeTestWebGPU p) @ [DisposeWebGPU])"
  using assms by (simp add: createWebGPURenderer_def split_beta Let_def)

lemma createWebGPURenderer_count:
  "count_list (snd (createWebGPURenderer p)) ConstructWebGPU \<le> 1"
  by (simp add: createWebGPURenderer_def split_beta Let_def)

lemma createWebGPURenderer_result:
  "fst (createWebGPURenderer p) = None \<or> fst (createWebGPURenderer p) = Some WebGPURenderer"
  by (simp add: createWebGPURenderer_def split_beta Let_def)

lemma createWebGLRenderer_throws:
  "throws p ConstructWebGL \<Longrightarrow> createWebGLRenderer p tierName = Inl WebGLContextError"
  by (simp add: createWebGLRenderer_def Let_def)

lemma createWebGLRenderer_returns:
  "\<not> throws p ConstructWebGL \<Longrightarrow> \<exists>r. createWebGLRenderer p tierName = Inr r"
  by (simp add: createWebGLRenderer_def Let_def)

text \<open>
  When the WebGL constructor throws, every path that reaches it rejects: also the direct
  path of a platform without WebGPU.
\<close>

lemma makeRenderer_rejects:
  assumes "throws p ConstructWebGL"
    and "\<not> gpu p \<or> \<not> str_includes tierName ''webgpu'' \<or> fst (createWebGPURenderer p) = None"
  shows "fst (makeRenderer p tierName) = Inl WebGLContextError"
  using assms createWebGLRenderer_throws[OF assms(1), of tierName]
  by (auto simp add: makeRenderer_def split_beta Let_def split: option.splits)

lemma makeRenderer_resolves:
  assumes "\<not> throws p ConstructWebGL"
  shows "fst (makeRenderer p tierName) = Inr \<lparr> renderer = WebGPURenderer, rendererType = webgpu \<rparr>
         \<or> (\<exists>r. createWebGLRenderer p tierName = Inr r
                \<and> fst (makeRenderer p tierName)
                    = Inr \<lparr> renderer = WebGLRenderer r, rendererType = webgl2 \<rparr>)"
proof -
  from createWebGLRenderer_returns[OF assms, of tierName] obtain r where
    r: "createWebGLRenderer p tierName = Inr r" by blast
  show ?thesis
    using createWebGPURenderer_result[of p] r
    by (auto simp add: makeRenderer_def split_beta Let_def split: option.splits)
qed

lemma makeRenderer_count:
  "count_list (snd (makeRenderer p tierName)) ConstructWebGPU \<le> 1"
  using createWebGPURenderer_count[of p]
  by (auto simp add: makeRenderer_def split_beta Let_def split: option.splits sum.splits)

lemma makeRenderer_after_smoke_failure:
  assumes "gpu p" and "str_includes tierName ''webgpu''"
    and "\<not> throws p ImportWebGPURenderer" and "\<not> throws p ConstructWebGPU"
    and "\<not> throws p InitWebGPU" and "\<not> throws p ConfigureWebGPU"
    and "\<not> fst (smokeTestWebGPU p)"
  shows "snd (makeRenderer p tierName) =
           [ImportWebGPURenderer, ConstructWebGPU, InitWebGPU, ConfigureWebGPU]
             @ snd (smokeTestWebGPU p) @ [DisposeWebGPU, ConstructWebGL]"
    and "fst (makeRenderer p tierName) =
           (case createWebGLRenderer p tierName of
              Inl e \<Rightarrow> Inl e
            | Inr r \<Rightarrow> Inr \<lparr> renderer = WebGLRenderer r, rendererType = webgl2 \<rparr>)"
  using assms(1,2) createWebGPURenderer_smoke_failed[OF assms(3-7)]
  by (simp_all add: makeRenderer_def split: sum.splits)

text \<open>
  C3 (as amended). If the initialisation of the WebGPU renderer reaches the smoke test and
  the smoke test fails, \<^verbatim>\<open>makeRenderer\<close> disposes the WebGPU renderer and then
  constructs the WebGL renderer: when that constructor returns, the WebGL renderer is the
  result, and when it throws, the factory rejects with its exception. The WebGPU renderer
  is constructed once in the call; the factory keeps no state, so nothing is said of a
  later call. For every platform and tier on which the WebGL constructor does not throw,
  the factory resolves to a renderer: the WebGPU one, or the WebGL one configured for the
  tier.
\<close>

theorem smoke_test_failure_falls_back:
  "(gpu p \<and> str_includes tierName ''webgpu''
      \<and> \<not> throws p ImportWebGPURenderer \<and> \<not> throws p ConstructWebGPU
      \<and> \<not> throws p InitWebGPU \<and> \<not> throws p ConfigureWebGPU
      \<and> \<not> fst (smokeTestWebGPU p)
    \<longrightarrow> snd (makeRenderer p tierName) =
            [ImportWebGPURenderer, ConstructWebGPU, InitWebGPU, ConfigureWebGPU]
              @ snd (smokeTestWebGPU p) @ [DisposeWebGPU, ConstructWebGL]
        \<and> (if throws p ConstructWebGL
            then fst (makeRenderer p tierName) = Inl WebGLContextError
            else (\<exists>r. createWebGLRenderer p tierName = Inr r
                      \<and> fst (makeRenderer p tierName)
                          = Inr \<lparr> renderer = WebGLRenderer r, rendererType = webgl2 \<rparr>))
        \<and> count_list (snd (makeRenderer p tierName)) ConstructWebGPU = 1
        \<and> count_list (snd (makeRenderer p tierName)) DisposeWebGPU = 1)
   \<and> (\<not> throws p ConstructWebGL
      \<longrightarrow> fst (makeRenderer p tierName)
            = Inr \<lparr> renderer = WebGPURenderer, rendererType = webgpu \<rparr>
          \<or> (\<exists>r. createWebGLRenderer p tierName = Inr r
                 \<and> fst (makeRenderer p tierName)
                     = Inr \<lparr> renderer = WebGLRenderer r, rendererType = webgl2 \<rparr>))
   \<and> count_list (snd (makeRenderer p tierName)) ConstructWebGPU \<le> 1"
proof (intro conjI impI)
  assume a: "gpu p \<and> str_includes tierName ''webgpu''
      \<and> \<not> throws p ImportWebGPURenderer \<and> \<not> throws p ConstructWebGPU
      \<and> \<not> throws p InitWebGPU \<and> \<not> throws p ConfigureWebGPU
      \<and> \<not> fst (smokeTestWebGPU p)"
  then have calls: "snd (makeRenderer p tierName) =
            [ImportWebGPURenderer, ConstructWebGPU, InitWebGPU, ConfigureWebGPU]
              @ snd (smokeTestWebGPU p) @ [DisposeWebGPU, ConstructWebGL]"
    and res: "fst (makeRenderer p tierName) =
           (case createWebGLRenderer p tierName of
              Inl e \<Rightarrow> Inl e
            | Inr r \<Rightarrow> Inr \<lparr> renderer = WebGLRenderer r, rendererType = webgl2 \<rparr>)"
    by (simp_all add: makeRenderer_after_smoke_failure)
  show "snd (makeRenderer p tierName) =
            [ImportWebGPURenderer, ConstructWebGPU, InitWebGPU, ConfigureWebGPU]
              @ snd (smokeTestWebGPU p) @ [DisposeWebGPU, ConstructWebGL]"
    by (rule calls)
  show "if throws p ConstructWebGL
        then fst (makeRenderer p tierName) = Inl WebGLContextError
        else (\<exists>r. createWebGLRenderer p tierName = Inr r
                  \<and> fst (makeRenderer p tierName)
                      = Inr \<lparr> renderer = WebGLRenderer r, rendererType = webgl2 \<rparr>)"
  proof (cases "throws p ConstructWebGL")
    case True
    with res createWebGLRenderer_throws[OF True, of tierName] show ?thesis by simp
  next
    case False
    from createWebGLRenderer_returns[OF False, of tierName] obtain r where
      "createWebGLRenderer p tierName = Inr r" by blast
    with res False show ?thesis by simp
  qed
  show "count_list (snd (makeRenderer p tierName)) ConstructWebGPU = 1"
    by (simp add: calls)
  show "count_list (snd (makeRenderer p tierName)) DisposeWebGPU = 1"
    by (simp add: calls)
next
  assume "\<not> throws p ConstructWebGL"
  then show "fst (makeRenderer p tierName)
            = Inr \<lparr> renderer = WebGPURenderer, rendererType = webgpu \<rparr>
          \<or> (\<exists>r. createWebGLRenderer p tierName = Inr r
                 \<and> fst (makeRenderer p tierName)
                     = Inr \<lparr> renderer = WebGLRenderer r, rendererType = webgl2 \<rparr>)"
    by (rule makeRenderer_resolves)
next
  show "count_list (snd (makeRenderer p tierName)) ConstructWebGPU \<le> 1"
    by (rule makeRenderer_count)
qed

theorem smoke_test_failure_falls_back_witness:
  "gpu examplePlatform \<and> str_includes ''desktop-webgpu'' ''webgpu''
   \<and> \<not> throws examplePlatform ImportWebGPURenderer \<and> \<not> throws examplePlatform ConstructWebGPU
   \<and> \<not> throws examplePlatform InitWebGPU \<and> \<not> throws examplePlatform ConfigureWebGPU
   \<and> \<not> fst (smokeTestWebGPU examplePlatform)
   \<and> \<not> throws examplePlatform ConstructWebGL
   \<and> snd (makeRenderer examplePlatform ''desktop-webgpu'') =
        [ImportWebGPURenderer, ConstructWebGPU, InitWebGPU, ConfigureWebGPU,
         SmokeSetSize, SmokeRender, DisposeWebGPU, ConstructWebGL]
   \<and> (\<exists>r. createWebGLRenderer examplePlatform ''desktop-webgpu'' = Inr r
          \<and> fst (makeRenderer examplePlatform ''desktop-webgpu'')
              = Inr \<lparr> renderer = WebGLRenderer r, rendererType = webgl2 \<rparr>)"
proof -
  have h: "gpu examplePlatform \<and> str_includes ''desktop-webgpu'' ''webgpu''
   \<and> \<not> throws examplePlatform ImportWebGPURenderer \<and> \<not> throws examplePlatform ConstructWebGPU
   \<and> \<not> throws examplePlatform InitWebGPU \<and> \<not> throws examplePlatform ConfigureWebGPU
   \<and> \<not> fst (smokeTestWebGPU examplePlatform)"
    by (simp add: examplePlatform_def smokeTestWebGPU_def)
  have g: "\<not> throws examplePlatform ConstructWebGL"
    by (simp add: examplePlatform_def)
  have s: "snd (smokeTestWebGPU examplePlatform) = [SmokeSetSize, SmokeRender]"
    by (simp add: examplePlatform_def smokeTestWebGPU_def)
  from smoke_test_failure_falls_back[of examplePlatform "''desktop-webgpu''"] h g
  have "snd (makeRenderer examplePlatform ''desktop-webgpu'') =
            [ImportWebGPURenderer, ConstructWebGPU, InitWebGPU, ConfigureWebGPU]
              @ snd (smokeTestWebGPU examplePlatform) @ [DisposeWebGPU, ConstructWebGL]"
    and "\<exists>r. createWebGLRenderer examplePlatform ''desktop-webgpu'' = Inr r
          \<and> fst (makeRenderer examplePlatform ''desktop-webgpu'')
              = Inr \<lparr> renderer = WebGLRenderer r, rendererType = webgl2 \<rparr>"
    by simp_all
  with h g s show ?thesis by simp
qed

text \<open>
  On a platform where the smoke test fails and no WebGL context can be created, the
  factory disposes the WebGPU renderer, calls the WebGL constructor and rejects: it does
  not resolve to a renderer. And two calls of the factory on one platform construct the
  WebGPU renderer twice.
\<close>

theorem smoke_test_failure_counterexample:
  "\<not> fst (smokeTestWebGPU noWebGLPlatform)
   \<and> makeRenderer noWebGLPlatform ''desktop-webgpu'' =
       (Inl WebGLContextError,
        [ImportWebGPURenderer, ConstructWebGPU, InitWebGPU, ConfigureWebGPU,
         SmokeSetSize, SmokeRender, DisposeWebGPU, ConstructWebGL])
   \<and> count_list (snd (makeRenderer examplePlatform ''desktop-webgpu'')
                  @ snd (makeRenderer examplePlatform ''desktop-webgpu'')) ConstructWebGPU = 2"
proof -
  have inc: "str_includes ''desktop-webgpu'' ''webgpu''" by simp
  have a: "\<not> fst (smokeTestWebGPU noWebGLPlatform)"
    by (simp add: noWebGLPlatform_def smokeTestWebGPU_def)
  have b: "makeRenderer noWebGLPlatform ''desktop-webgpu'' =
       (Inl WebGLContextError,
        [ImportWebGPURenderer, ConstructWebGPU, InitWebGPU, ConfigureWebGPU,
         SmokeSetSize, SmokeRender, DisposeWebGPU, ConstructWebGL])"
    using inc
    by (simp add: makeRenderer_def createWebGPURenderer_def createWebGLRenderer_def
        smokeTestWebGPU_def noWebGLPlatform_def Let_def)
  have "snd (makeRenderer examplePlatform ''desktop-webgpu'') =
        [ImportWebGPURenderer, ConstructWebGPU, InitWebGPU, ConfigureWebGPU,
         SmokeSetSize, SmokeRender, DisposeWebGPU, ConstructWebGL]"
    using inc
    by (simp add: makeRenderer_def createWebGPURenderer_def createWebGLRenderer_def
        smokeTestWebGPU_def examplePlatform_def Let_def)
  then have c: "count_list (snd (makeRenderer examplePlatform ''desktop-webgpu'')
                  @ snd (makeRenderer examplePlatform ''desktop-webgpu'')) ConstructWebGPU = 2"
    by simp
  from a b c show ?thesis by blast
qed

subsection \<open>Context loss and restore handlers\<close>

text \<open>
  What the context-loss handler does in general: \<^verbatim>\<open>preventDefault\<close> is always its
  first action and the console message its second; when the storage accepts the write,
  the flag is stored next and the banner is then created and appended; when the storage
  refuses it, the handler ends there with the exception.
\<close>

lemma context_loss_handler_actions:
  "actions (fst (onContextLost pg)) =
      actions pg @ (if storageRefusesWrites pg then [PreventDefault, ConsoleError]
                    else [PreventDefault, ConsoleError, SetItem ''webglContextLost'' ''true'',
                          CreateBanner, AppendBanner])
   \<and> defaultPrevented (fst (onContextLost pg))"
  by (simp add: onContextLost_def preventDefault_def setItem_def appendChild_def perform_def
      Let_def)

lemma context_loss_handler_storage_accepts:
  assumes "\<not> storageRefusesWrites pg"
  shows "snd (onContextLost pg) = None"
    and "localStorage (fst (onContextLost pg)) ''webglContextLost'' = Some ''true''"
    and "body (fst (onContextLost pg)) = body pg @ [GraphicsErrorBanner]"
  using assms
  by (simp_all add: onContextLost_def preventDefault_def setItem_def appendChild_def
      perform_def Let_def)

lemma context_loss_handler_storage_refuses:
  assumes "storageRefusesWrites pg"
  shows "snd (onContextLost pg) = Some QuotaExceededError"
    and "localStorage (fst (onContextLost pg)) = localStorage pg"
    and "body (fst (onContextLost pg)) = body pg"
  using assms
  by (simp_all add: onContextLost_def preventDefault_def setItem_def perform_def Let_def)

text \<open>
  C4. The claim has \<^verbatim>\<open>preventDefault\<close>, the write of the flag and the banner all
  happen on every loss event, in this order. The handler at the failing input, a loss
  event on a page whose storage is full: it prevents the default, writes the console
  message and ends with the exception of \<^verbatim>\<open>setItem\<close>; no flag is stored and no
  banner is shown.
\<close>

theorem context_loss_with_full_storage:
  "actions (fst (onContextLost fullStoragePage)) = [PreventDefault, ConsoleError]
   \<and> snd (onContextLost fullStoragePage) = Some QuotaExceededError
   \<and> localStorage (fst (onContextLost fullStoragePage)) ''webglContextLost'' = None
   \<and> body (fst (onContextLost fullStoragePage)) = []"
  by (simp add: onContextLost_def preventDefault_def setItem_def perform_def Let_def
      fullStoragePage_def)

text \<open>The restore handler clears the flag and reloads the page.\<close>

lemma context_restored_handler:
  "actions (onContextRestored pg) =
      actions pg @ [ConsoleLog, RemoveItem ''webglContextLost'', Reload]
   \<and> localStorage (onContextRestored pg) ''webglContextLost'' = None"
  by (simp add: onContextRestored_def removeItem_def perform_def)

subsection \<open>Shadow frustum fitting\<close>

text \<open>
  When some object is visible and shadows are enabled, the bounds are the extents of the
  union of the visible volumes in light space, and the projection is rebuilt from them.
\<close>

lemma fitShadowFrustum_visible:
  assumes "filter (intersectsFrustum S camera) scene = obj # objs"
  shows "frustumBounds (shadowCamera (fitShadowFrustum S True light scene camera)) =
           boxExtents (toLightSpace S (lightSpace light)
              (foldl (\<lambda>v ob. unionVolume S v (boundingVolume S ob)) (boundingVolume S obj) objs))"
    and "projectionBounds (shadowCamera (fitShadowFrustum S True light scene camera)) =
           frustumBounds (shadowCamera (fitShadowFrustum S True light scene camera))"
  using assms
  by (simp_all add: fitShadowFrustum_def Let_def frustumBounds_def boxExtents_def
      updateProjectionMatrix_def)

lemma fitShadowFrustum_example:
  "frustumBounds (shadowCamera
      (fitShadowFrustum boxScene True previousLight [unitCube] lookingAtAll))
     = (0, 1, 1, 0, 0, 1)"
  by (simp add: fitShadowFrustum_def Let_def frustumBounds_def boxScene_def unitCube_def
      lookingAtAll_def updateProjectionMatrix_def vx_def vy_def vz_def)

text \<open>
  C5. In a frame in which no object of the scene intersects the camera's view frustum, the
  fitter leaves the light as it was: its orthographic bounds, and the projection built
  from them, are those of the previous frame.
\<close>

theorem empty_visible_set_retains_bounds:
  assumes "filter (intersectsFrustum S camera) scene = []"
  shows "fitShadowFrustum S shadowsEnabled light scene camera = light
         \<and> frustumBounds (shadowCamera (fitShadowFrustum S shadowsEnabled light scene camera))
             = frustumBounds (shadowCamera light)"
  using assms by (simp add: fitShadowFrustum_def)

theorem empty_visible_set_retains_bounds_witness:
  "filter (intersectsFrustum boxScene lookingAway) [unitCube] = []
   \<and> fitShadowFrustum boxScene True previousLight [unitCube] lookingAway = previousLight
   \<and> frustumBounds (shadowCamera
         (fitShadowFrustum boxScene True previousLight [unitCube] lookingAway))
       = (- 10, 10, 10, - 10, 1, 50)"
proof -
  have a: "filter (intersectsFrustum boxScene lookingAway) [unitCube] = []"
    by (simp add: boxScene_def lookingAway_def)
  have b: "frustumBounds (shadowCamera previousLight) = (- 10, 10, 10, - 10, 1, 50)"
    by (simp add: frustumBounds_def previousLight_def)
  from empty_visible_set_retains_bounds[OF a, of True previousLight] a b
  show ?thesis by simp
qed

subsection \<open>Frame performance governor\<close>

lemma governorFrame_stage_mono: "stage g \<le> stage (governorFrame N t g f)"
  by (simp add: governorFrame_def Let_def)

lemma governorRun_stage_mono: "stage g \<le> stage (governorRun N t g fs)"
  unfolding governorRun_def
proof (induction fs arbitrary: g)
  case Nil
  show ?case by simp
next
  case (Cons f fs)
  have "stage g \<le> stage (governorFrame N t g f)" by (rule governorFrame_stage_mono)
  also have "\<dots> \<le> stage (foldl (governorFrame N t) (governorFrame N t g f) fs)"
    by (rule Cons.IH)
  finally show ?case by simp
qed

text \<open>
  C6. On a fixed tier the stage index of the governor never decreases along the frames of a
  session: after any further frames, fast or slow, the stage is at least what it was.
\<close>

theorem governor_stage_never_decreases:
  "stage (governorRun N t g fs) \<le> stage (governorRun N t g (fs @ later))"
proof -
  have "governorRun N t g (fs @ later) = governorRun N t (governorRun N t g fs) later"
    by (simp add: governorRun_def)
  then show ?thesis by (simp add: governorRun_stage_mono)
qed

text \<open>
  Ten janky frames on the constrained tier advance one stage, and ten fast frames after
  them leave it there.
\<close>

lemma governor_scenario:
  "stage (governorRun 10 mobileLow \<lparr> window = [], stage = 0 \<rparr>
            (frames [60, 60, 60, 60, 60, 60, 60, 60, 60, 60])) = 1
   \<and> stage (governorRun 10 mobileLow \<lparr> window = [], stage = 0 \<rparr>
            (frames ([60, 60, 60, 60, 60, 60, 60, 60, 60, 60]
                     @ [10, 10, 10, 10, 10, 10, 10, 10, 10, 10]))) = 1"
  by (simp add: governorRun_def frames_def governorFrame_def pushSample_def isJank_def
      jankThreshold_def jankTolerance_def degradationStages_def Let_def)

end
